theory Spec2Isabelle
  imports Main "HOL-Library.Word"
begin

section \<open>The retention cleanup of image-builder-maintenance (db.go)\<close>

text \<open>
  The program talks to one PostgreSQL database through a pgx connection and to the logrus
  logger. Both are made explicit: a \<open>world\<close> holds the two tables, the open connections,
  the wall clock, the statements the server has received (the journal), the records the
  logger has received, and a script of replies that decides, call by call, how long a
  database call takes and whether it fails. The run is the only writer of the tables.
\<close>

subsection \<open>Data\<close>

type_synonym time = int
type_synonym error = string

record compose =
  job_id :: nat
  created_at :: time

record clone =
  clone_id :: nat
  compose_id :: nat

text \<open>One row of \<open>pg_stat_user_tables\<close> as \<open>LogVacuumStats\<close> scans it.\<close>

record table_stat =
  table_name :: string
  table_size :: string
  tuples_inserted :: int
  tuples_updated :: int
  tuples_deleted :: int
  tuples_live :: int
  tuples_dead :: int
  vacuum_count :: int
  autovacuum_count :: int
  analyze_count :: int
  autoanalyze_count :: int
  last_vacuum :: "time option"
  last_autovacuum :: "time option"
  last_analyze :: "time option"
  last_autoanalyze :: "time option"

text \<open>The SQL constants of the file; the argument is the parameter \<open>$1\<close>.\<close>

datatype stmt =
    sqlDeleteClones time
  | sqlDeleteComposes time
  | sqlExpiredClonesCount time
  | sqlExpiredComposesCount time
  | sqlVacuumAnalyze
  | sqlVacuumStats

datatype event =
    Connected string "error option"
  | Executed stmt int "error option"
  | Queried stmt "error option"
  | Closed nat

datatype level = Info | Warning | Error

datatype log_arg = AInt int | AErr error

datatype log_entry =
    Logf level string "log_arg list"
  | LogFields level table_stat string

text \<open>
  What the server answers to one call: the time the call takes, whether it fails, the row
  count of the command tag of a failed statement, and for the statistics query the rows
  (each scans or fails to scan) and the error the row iterator ends with.
\<close>

record reply =
  elapsed :: nat
  failure :: "error option"
  partial_rows :: int
  stat_rows :: "(error + table_stat) list"
  rows_err :: "error option"

record world =
  composes :: "compose list"
  clones :: "clone list"
  open_conns :: "nat list"
  handles :: nat
  clock :: time
  script :: "reply list"
  journal :: "event list"
  logged :: "log_entry list"

record maintenanceDB =
  Conn :: nat

subsection \<open>The collaborators: pgx, logrus, time\<close>

definition no_reply :: reply where
  "no_reply = \<lparr>elapsed = 0, failure = None, partial_rows = 0, stat_rows = [], rows_err = None\<rparr>"

definition next_reply :: "world \<Rightarrow> reply \<times> world" where
  "next_reply w =
     (case script w of
        [] \<Rightarrow> (no_reply, w)
      | r # rs \<Rightarrow> (r, w\<lparr>script := rs, clock := clock w + int (elapsed r)\<rparr>))"

definition record_event :: "event \<Rightarrow> world \<Rightarrow> world" where
  "record_event ev w = w\<lparr>journal := journal w @ [ev]\<rparr>"

definition logf :: "level \<Rightarrow> string \<Rightarrow> log_arg list \<Rightarrow> world \<Rightarrow> world" where
  "logf l fmt as w = w\<lparr>logged := logged w @ [Logf l fmt as]\<rparr>"

definition log_fields :: "level \<Rightarrow> table_stat \<Rightarrow> string \<Rightarrow> world \<Rightarrow> world" where
  "log_fields l fs msg w = w\<lparr>logged := logged w @ [LogFields l fs msg]\<rparr>"

definition time_Now :: "world \<Rightarrow> time" where
  "time_Now w = clock w"

text \<open>\<open>fmt.Errorf("<prefix>%v", err)\<close>: a new error whose message is the prefix and the message of \<open>err\<close>.\<close>

definition Errorf :: "string \<Rightarrow> error \<Rightarrow> error" where
  "Errorf prefix err = prefix @ err"

text \<open>The rows a statement with cutoff \<open>c\<close> selects.\<close>

definition expired_composes :: "time \<Rightarrow> compose list \<Rightarrow> compose list" where
  "expired_composes c cs = filter (\<lambda>co. created_at co < c) cs"

definition expired_clones :: "time \<Rightarrow> compose list \<Rightarrow> clone list \<Rightarrow> clone list" where
  "expired_clones c cs cls =
     filter (\<lambda>cl. compose_id cl \<in> set (map job_id (expired_composes c cs))) cls"

text \<open>The effect of a statement on the tables, with the row count of its command tag.\<close>

fun run_stmt :: "stmt \<Rightarrow> world \<Rightarrow> int \<times> world" where
  "run_stmt (sqlDeleteClones c) w =
     (int (length (expired_clones c (composes w) (clones w))),
      w\<lparr>clones := filter (\<lambda>cl. compose_id cl \<notin> set (map job_id (expired_composes c (composes w))))
                    (clones w)\<rparr>)"
| "run_stmt (sqlDeleteComposes c) w =
     (int (length (expired_composes c (composes w))),
      w\<lparr>composes := filter (\<lambda>co. \<not> created_at co < c) (composes w)\<rparr>)"
| "run_stmt (sqlExpiredClonesCount c) w = (1, w)"
| "run_stmt (sqlExpiredComposesCount c) w = (1, w)"
| "run_stmt sqlVacuumAnalyze w = (0, w)"
| "run_stmt sqlVacuumStats w = (0, w)"

text \<open>\<open>pgx.Connect\<close>: a new handle on success (0 is the nil connection).\<close>

definition pgx_Connect :: "string \<Rightarrow> world \<Rightarrow> (nat \<times> error option) \<times> world" where
  "pgx_Connect dbURL w =
     (let (r, w1) = next_reply w in
      case failure r of
        Some e \<Rightarrow> ((0, Some e), record_event (Connected dbURL (Some e)) w1)
      | None \<Rightarrow>
          (let h = Suc (handles w1) in
           ((h, None),
            record_event (Connected dbURL None)
              (w1\<lparr>handles := h, open_conns := h # open_conns w1\<rparr>))))"

definition Conn_Close :: "nat \<Rightarrow> world \<Rightarrow> error option \<times> world" where
  "Conn_Close h w =
     (let (r, w1) = next_reply w in
      (failure r, record_event (Closed h) (w1\<lparr>open_conns := removeAll h (open_conns w1)\<rparr>)))"

text \<open>\<open>Conn.Exec\<close>: a failed statement changes no row (a statement is atomic).\<close>

definition Conn_Exec :: "nat \<Rightarrow> stmt \<Rightarrow> world \<Rightarrow> (int \<times> error option) \<times> world" where
  "Conn_Exec h s w =
     (let (r, w1) = next_reply w in
      case failure r of
        Some e \<Rightarrow> ((partial_rows r, Some e), record_event (Executed s (partial_rows r) (Some e)) w1)
      | None \<Rightarrow>
          (let (n, w2) = run_stmt s w1 in
           ((n, None), record_event (Executed s n None) w2)))"

text \<open>\<open>Conn.QueryRow(...).Scan(&count)\<close> for the two count statements.\<close>

fun count_of :: "stmt \<Rightarrow> world \<Rightarrow> int" where
  "count_of (sqlExpiredClonesCount c) w = int (length (expired_clones c (composes w) (clones w)))"
| "count_of (sqlExpiredComposesCount c) w = int (length (expired_composes c (composes w)))"
| "count_of _ w = 0"

definition Conn_QueryRow_Scan :: "nat \<Rightarrow> stmt \<Rightarrow> world \<Rightarrow> (int \<times> error option) \<times> world" where
  "Conn_QueryRow_Scan h s w =
     (let (r, w1) = next_reply w in
      case failure r of
        Some e \<Rightarrow> ((0, Some e), record_event (Queried s (Some e)) w1)
      | None \<Rightarrow> ((count_of s w1, None), record_event (Queried s None) w1))"

text \<open>\<open>Conn.Query\<close>: the rows and the iterator's final error, or the error of the query.\<close>

definition Conn_Query ::
  "nat \<Rightarrow> stmt \<Rightarrow> world \<Rightarrow> (((error + table_stat) list \<times> error option) \<times> error option) \<times> world" where
  "Conn_Query h s w =
     (let (r, w1) = next_reply w in
      case failure r of
        Some e \<Rightarrow> ((([], None), Some e), record_event (Queried s (Some e)) w1)
      | None \<Rightarrow> (((stat_rows r, rows_err r), None), record_event (Queried s None) w1))"

subsection \<open>The methods of \<open>maintenanceDB\<close>\<close>

definition newDB :: "string \<Rightarrow> world \<Rightarrow> (maintenanceDB \<times> error option) \<times> world" where
  "newDB dbURL w =
     (case pgx_Connect dbURL w of
        ((conn, Some err), w1) \<Rightarrow> ((\<lparr>Conn = 0\<rparr>, Some err), w1)
      | ((conn, None), w1) \<Rightarrow> ((\<lparr>Conn = conn\<rparr>, None), w1))"

definition Close :: "maintenanceDB \<Rightarrow> world \<Rightarrow> error option \<times> world" where
  "Close d w = Conn_Close (Conn d) w"

definition DeleteClones :: "maintenanceDB \<Rightarrow> time \<Rightarrow> world \<Rightarrow> (int \<times> error option) \<times> world" where
  "DeleteClones d emailRetentionDate w =
     (case Conn_Exec (Conn d) (sqlDeleteClones emailRetentionDate) w of
        ((tag, Some err), w1) \<Rightarrow> ((tag, Some (Errorf ''Error deleting clones: '' err)), w1)
      | ((tag, None), w1) \<Rightarrow> ((tag, None), w1))"

definition DeleteComposes :: "maintenanceDB \<Rightarrow> time \<Rightarrow> world \<Rightarrow> (int \<times> error option) \<times> world" where
  "DeleteComposes d emailRetentionDate w =
     (case Conn_Exec (Conn d) (sqlDeleteComposes emailRetentionDate) w of
        ((tag, Some err), w1) \<Rightarrow> ((tag, Some (Errorf ''Error deleting composes: '' err)), w1)
      | ((tag, None), w1) \<Rightarrow> ((tag, None), w1))"

definition ExpiredClonesCount :: "maintenanceDB \<Rightarrow> time \<Rightarrow> world \<Rightarrow> (int \<times> error option) \<times> world" where
  "ExpiredClonesCount d emailRetentionDate w =
     (case Conn_QueryRow_Scan (Conn d) (sqlExpiredClonesCount emailRetentionDate) w of
        ((count, Some err), w1) \<Rightarrow> ((0, Some err), w1)
      | ((count, None), w1) \<Rightarrow> ((count, None), w1))"

definition ExpiredComposesCount :: "maintenanceDB \<Rightarrow> time \<Rightarrow> world \<Rightarrow> (int \<times> error option) \<times> world" where
  "ExpiredComposesCount d emailRetentionDate w =
     (case Conn_QueryRow_Scan (Conn d) (sqlExpiredComposesCount emailRetentionDate) w of
        ((count, Some err), w1) \<Rightarrow> ((0, Some err), w1)
      | ((count, None), w1) \<Rightarrow> ((count, None), w1))"

definition VacuumAnalyze :: "maintenanceDB \<Rightarrow> world \<Rightarrow> error option \<times> world" where
  "VacuumAnalyze d w =
     (case Conn_Exec (Conn d) sqlVacuumAnalyze w of
        ((tag, Some err), w1) \<Rightarrow> (Some (Errorf ''Error running VACUUM ANALYZE: '' err), w1)
      | ((tag, None), w1) \<Rightarrow> (None, w1))"

text \<open>
  The row loop of \<open>LogVacuumStats\<close>: \<open>deleted\<close> is the counter declared before the loop;
  a row that fails to scan ends the call with that error, every other row is logged.
\<close>

fun LogVacuumStats_rows ::
  "(error + table_stat) list \<Rightarrow> error option \<Rightarrow> int \<Rightarrow> world \<Rightarrow> (int \<times> error option) \<times> world" where
  "LogVacuumStats_rows [] rowsErr deleted w =
     (case rowsErr of
        Some err \<Rightarrow> ((0, Some err), w)
      | None \<Rightarrow> ((deleted, None), w))"
| "LogVacuumStats_rows (Inl err # rows) rowsErr deleted w = ((0, Some err), w)"
| "LogVacuumStats_rows (Inr row # rows) rowsErr deleted w =
     LogVacuumStats_rows rows rowsErr deleted
       (log_fields Info row ''Vacuum and analyze stats for table'' w)"

definition LogVacuumStats :: "maintenanceDB \<Rightarrow> world \<Rightarrow> (int \<times> error option) \<times> world" where
  "LogVacuumStats d w =
     (case Conn_Query (Conn d) sqlVacuumStats w of
        ((rows, Some err), w1) \<Rightarrow> ((0, Some (Errorf ''Error querying vacuum stats: '' err)), w1)
      | (((rows, rowsErr), None), w1) \<Rightarrow> LogVacuumStats_rows rows rowsErr 0 w1)"

subsection \<open>\<open>DBCleanup\<close>\<close>

text \<open>Lines 157 to 160 and 207 to 210: the statistics report, whose error is only logged.\<close>

definition report_stats :: "maintenanceDB \<Rightarrow> world \<Rightarrow> world" where
  "report_stats db w =
     (case LogVacuumStats db w of
        ((_, Some err), w1) \<Rightarrow> logf Error ''Error running vacuum stats: %v'' [AErr err] w1
      | ((_, None), w1) \<Rightarrow> w1)"

text \<open>Line 165; \<open>AddDate\<close> is the method of \<open>time.Time\<close>, the month count a 64-bit \<open>int\<close>.\<close>

definition emailRetentionDate ::
  "(time \<Rightarrow> int \<Rightarrow> int \<Rightarrow> int \<Rightarrow> time) \<Rightarrow> 64 word \<Rightarrow> world \<Rightarrow> time" where
  "emailRetentionDate AddDate ClonesRetentionMonths w =
     AddDate (time_Now w) 0 (sint (ClonesRetentionMonths * (- 1))) 0"

text \<open>The dry-run branch of the loop body, lines 169 to 179.\<close>

definition dry_run_report :: "maintenanceDB \<Rightarrow> time \<Rightarrow> world \<Rightarrow> world" where
  "dry_run_report db cutoff w =
     (case ExpiredClonesCount db cutoff w of
        ((rowsClones, err), w1) \<Rightarrow>
          (let w2 = (case err of
                       Some e \<Rightarrow> logf Warning ''Error querying expired clones: %v'' [AErr e] w1
                     | None \<Rightarrow> w1)
           in case ExpiredComposesCount db cutoff w2 of
                ((rows, err'), w3) \<Rightarrow>
                  (let w4 = (case err' of
                               Some e \<Rightarrow> logf Warning ''Error querying expired composes: %v'' [AErr e] w3
                             | None \<Rightarrow> w3)
                   in logf Info ''Dryrun, expired composes count: %d (affecting %d clones)''
                        [AInt rows, AInt rowsClones] w4)))"

text \<open>
  One pass through the live part of the loop body, lines 182 to 204: the error to return,
  or whether the loop goes on.
\<close>

datatype outcome = Abort error | Break | Continue

definition delete_pass :: "maintenanceDB \<Rightarrow> time \<Rightarrow> world \<Rightarrow> outcome \<times> world" where
  "delete_pass db cutoff w =
     (case DeleteClones db cutoff w of
        ((rows, Some err), w1) \<Rightarrow>
          (Abort err, logf Error ''Error deleting clones: %v, %d rows affected'' [AInt rows, AErr err] w1)
      | ((rows, None), w1) \<Rightarrow>
          (case DeleteComposes db cutoff w1 of
             ((rows, Some err), w2) \<Rightarrow>
               (Abort err,
                logf Error ''Error deleting composes: %v, %d rows affected'' [AInt rows, AErr err] w2)
           | ((rows, None), w2) \<Rightarrow>
               (case VacuumAnalyze db w2 of
                  (Some err, w3) \<Rightarrow>
                    (Abort err, logf Error ''Error running vacuum analyze: %v'' [AErr err] w3)
                | (None, w3) \<Rightarrow>
                    if rows = 0 then (Break, w3)
                    else (Continue, logf Info ''Deleted results for %d'' [AInt rows] w3))))"

text \<open>The \<open>for\<close> loop, lines 167 to 205.\<close>

function DBCleanup_loop :: "maintenanceDB \<Rightarrow> bool \<Rightarrow> time \<Rightarrow> world \<Rightarrow> error option \<times> world" where
  "DBCleanup_loop db dryRun cutoff w =
     (if dryRun then (None, dry_run_report db cutoff w)
      else
        (case delete_pass db cutoff w of
           (Abort err, w1) \<Rightarrow> (Some err, w1)
         | (Break, w1) \<Rightarrow> (None, w1)
         | (Continue, w1) \<Rightarrow> DBCleanup_loop db dryRun cutoff w1))"
  by pat_completeness auto

termination DBCleanup_loop
  apply (relation "measure (\<lambda>(db, dryRun, cutoff, w). length (expired_composes cutoff (composes w)))")
   apply simp
  subgoal premises prems for db dryRun cutoff w out w1
  proof -
    have pass: "delete_pass db cutoff w = (Continue, w1)"
      using prems by simp
    have keep: "composes v' = composes v"
      if "Conn_Exec h s v = (res, v')" and "s = sqlDeleteClones cutoff \<or> s = sqlVacuumAnalyze"
      for h s v res v'
      using that
      by (auto simp: Conn_Exec_def record_event_def next_reply_def
          split: prod.splits option.splits list.splits)
    have drop: "length (expired_composes cutoff (composes v')) < length (expired_composes cutoff (composes v))"
      if "Conn_Exec h (sqlDeleteComposes cutoff) v = ((n, None), v')" and "n \<noteq> 0"
      for h v n v'
      using that
      by (auto simp: Conn_Exec_def record_event_def next_reply_def expired_composes_def
          split: prod.splits option.splits list.splits)
    from pass obtain n e1 e3 wa wb wc
      where "Conn_Exec (Conn db) (sqlDeleteClones cutoff) w = (e1, wa)"
        and "Conn_Exec (Conn db) (sqlDeleteComposes cutoff) wa = ((n, None), wb)"
        and "Conn_Exec (Conn db) sqlVacuumAnalyze wb = (e3, wc)"
        and "n \<noteq> 0" and "composes w1 = composes wc"
      by (auto simp: delete_pass_def DeleteClones_def DeleteComposes_def VacuumAnalyze_def logf_def
          split: prod.splits option.splits if_splits)
    then have "length (expired_composes cutoff (composes w1)) < length (expired_composes cutoff (composes w))"
      using keep drop by metis
    then show ?thesis
      by simp
  qed
  done

declare DBCleanup_loop.simps [simp del]

text \<open>
  \<open>DBCleanup\<close>, lines 151 to 213. \<open>AddDate\<close> stands for the library method
  \<open>time.Time.AddDate\<close>.
\<close>

definition DBCleanup ::
  "(time \<Rightarrow> int \<Rightarrow> int \<Rightarrow> int \<Rightarrow> time) \<Rightarrow> string \<Rightarrow> bool \<Rightarrow> 64 word \<Rightarrow> world
     \<Rightarrow> error option \<times> world" where
  "DBCleanup AddDate dbURL dryRun ClonesRetentionMonths w =
     (case newDB dbURL w of
        ((db, Some err), w1) \<Rightarrow> (Some err, w1)
      | ((db, None), w1) \<Rightarrow>
          (let w2 = report_stats db w1;
               cutoff = emailRetentionDate AddDate ClonesRetentionMonths w2
           in case DBCleanup_loop db dryRun cutoff w2 of
                (Some err, w3) \<Rightarrow> (Some err, w3)
              | (None, w3) \<Rightarrow> (None, report_stats db w3)))"

subsection \<open>Shapes of the journal\<close>

text \<open>The three statements of one complete pass, with the rows the two deletions affected.\<close>

definition iteration :: "time \<Rightarrow> int \<times> int \<Rightarrow> event list" where
  "iteration c it =
     [Executed (sqlDeleteClones c) (fst it) None,
      Executed (sqlDeleteComposes c) (snd it) None,
      Executed sqlVacuumAnalyze 0 None]"

text \<open>
  A pass that ends the run: the statements it sent, the last of them failed, with the error
  \<open>DBCleanup\<close> returns and the record it logs.
\<close>

inductive aborted_pass :: "time \<Rightarrow> error \<Rightarrow> event list \<Rightarrow> log_entry \<Rightarrow> bool" where
  clones_failed:
    "err = Errorf ''Error deleting clones: '' e0 \<Longrightarrow>
     aborted_pass c err [Executed (sqlDeleteClones c) n (Some e0)]
       (Logf Error ''Error deleting clones: %v, %d rows affected'' [AInt n, AErr err])"
| composes_failed:
    "err = Errorf ''Error deleting composes: '' e0 \<Longrightarrow>
     aborted_pass c err
       [Executed (sqlDeleteClones c) m None, Executed (sqlDeleteComposes c) n (Some e0)]
       (Logf Error ''Error deleting composes: %v, %d rows affected'' [AInt n, AErr err])"
| vacuum_failed:
    "err = Errorf ''Error running VACUUM ANALYZE: '' e0 \<Longrightarrow>
     aborted_pass c err
       [Executed (sqlDeleteClones c) m None, Executed (sqlDeleteComposes c) n None,
        Executed sqlVacuumAnalyze k (Some e0)]
       (Logf Error ''Error running vacuum analyze: %v'' [AErr err])"

text \<open>The cutoff a statement carries.\<close>

fun stmt_cutoff :: "stmt \<Rightarrow> time option" where
  "stmt_cutoff (sqlDeleteClones c) = Some c"
| "stmt_cutoff (sqlDeleteComposes c) = Some c"
| "stmt_cutoff (sqlExpiredClonesCount c) = Some c"
| "stmt_cutoff (sqlExpiredComposesCount c) = Some c"
| "stmt_cutoff sqlVacuumAnalyze = None"
| "stmt_cutoff sqlVacuumStats = None"

text \<open>The cutoff a journal entry carries, and the cutoffs of a list of entries.\<close>

fun event_cutoff :: "event \<Rightarrow> time option" where
  "event_cutoff (Executed s n e) = stmt_cutoff s"
| "event_cutoff (Queried s e) = stmt_cutoff s"
| "event_cutoff (Connected u e) = None"
| "event_cutoff (Closed h) = None"

fun cutoffs_used :: "event list \<Rightarrow> time list" where
  "cutoffs_used [] = []"
| "cutoffs_used (ev # evs) =
     (case event_cutoff ev of
        None \<Rightarrow> cutoffs_used evs
      | Some c \<Rightarrow> c # cutoffs_used evs)"

text \<open>A deletion or a reclaim, whichever way it is sent.\<close>

fun mutating :: "stmt \<Rightarrow> bool" where
  "mutating (sqlDeleteClones c) = True"
| "mutating (sqlDeleteComposes c) = True"
| "mutating sqlVacuumAnalyze = True"
| "mutating s = False"

fun sends_mutation :: "event \<Rightarrow> bool" where
  "sends_mutation (Executed s n e) = mutating s"
| "sends_mutation (Queried s e) = mutating s"
| "sends_mutation ev = False"

text \<open>Entries of \<open>Conn.Exec\<close>, entries of \<open>Conn.Close\<close>, failed statements.\<close>

fun is_exec :: "event \<Rightarrow> bool" where
  "is_exec (Executed s n e) = True"
| "is_exec ev = False"

fun is_close :: "event \<Rightarrow> bool" where
  "is_close (Closed h) = True"
| "is_close ev = False"

fun failed_exec :: "event \<Rightarrow> bool" where
  "failed_exec (Executed s n (Some e)) = True"
| "failed_exec ev = False"

text \<open>The rows a statement that succeeded reports as affected.\<close>

fun rows_affected :: "event \<Rightarrow> int" where
  "rows_affected (Executed s n None) = n"
| "rows_affected ev = 0"

text \<open>The cutoff a run of \<open>DBCleanup\<close> from \<open>w\<close> computes at line 165, once it is connected.\<close>

definition run_cutoff ::
  "(time \<Rightarrow> int \<Rightarrow> int \<Rightarrow> int \<Rightarrow> time) \<Rightarrow> string \<Rightarrow> 64 word \<Rightarrow> world \<Rightarrow> time" where
  "run_cutoff AddDate dbURL n w =
     (case newDB dbURL w of
        ((db, e), w1) \<Rightarrow> emailRetentionDate AddDate n (report_stats db w1))"

text \<open>A failed connection, deletion or reclaim; a failed query is not one of them.\<close>

fun fatal :: "event \<Rightarrow> bool" where
  "fatal (Connected u (Some e)) = True"
| "fatal (Executed (sqlDeleteClones c) n (Some e)) = True"
| "fatal (Executed (sqlDeleteComposes c) n (Some e)) = True"
| "fatal (Executed sqlVacuumAnalyze n (Some e)) = True"
| "fatal ev = False"

text \<open>The entries a run adds to the journal.\<close>

definition added :: "world \<Rightarrow> world \<Rightarrow> event list" where
  "added w w' = drop (length (journal w)) (journal w')"

text \<open>No call that is still to come fails.\<close>

definition fault_free :: "world \<Rightarrow> bool" where
  "fault_free w = list_all (\<lambda>r. failure r = None) (script w)"

subsection \<open>Sample inputs\<close>

text \<open>A calendar of thirty-day months with time counted in days, as an instance of \<open>AddDate\<close>.\<close>

definition thirty_day_months :: "time \<Rightarrow> int \<Rightarrow> int \<Rightarrow> int \<Rightarrow> time" where
  "thirty_day_months t years months days = t + (12 * years + months) * 30 + days"

definition no_world :: world where
  "no_world = \<lparr>composes = [], clones = [], open_conns = [], handles = 0, clock = 0, script = [],
     journal = [], logged = []\<rparr>"

text \<open>
  Day 100: one compose of day 40 with one clone, one compose of today. With a retention of
  one month the cutoff is day 70.
\<close>

definition scenario_A :: world where
  "scenario_A = no_world\<lparr>
     composes := [\<lparr>job_id = 1, created_at = 40\<rparr>, \<lparr>job_id = 2, created_at = 100\<rparr>],
     clones := [\<lparr>clone_id = 7, compose_id = 1\<rparr>],
     clock := 100\<rparr>"

definition answers :: "nat \<Rightarrow> reply" where
  "answers t = no_reply\<lparr>elapsed := t\<rparr>"

definition fails :: "error \<Rightarrow> int \<Rightarrow> reply" where
  "fails e n = no_reply\<lparr>failure := Some e, partial_rows := n\<rparr>"

text \<open>The same data; every call takes forty days, so the clock passes the cutoff's month.\<close>

definition slow_scenario :: world where
  "slow_scenario = scenario_A\<lparr>script := replicate 12 (answers 40)\<rparr>"

text \<open>The same data; the fourth call, the deletion of the composes, fails.\<close>

definition scenario_C :: world where
  "scenario_C = scenario_A\<lparr>script :=
     [answers 0, answers 0, answers 0, fails ''constraint violation'' 3]\<rparr>"

text \<open>The same data; both statistics queries fail.\<close>

definition scenario_D :: world where
  "scenario_D = scenario_A\<lparr>script :=
     [answers 0, fails ''no statistics'' 0] @ replicate 6 (answers 0) @ [fails ''no statistics'' 0]\<rparr>"

text \<open>The same data; both statistics queries and both count queries fail.\<close>

definition blind_scenario :: world where
  "blind_scenario = scenario_A\<lparr>script :=
     [answers 0, fails ''no statistics'' 0, fails ''no count'' 0, fails ''no count'' 0,
      fails ''no statistics'' 0]\<rparr>"

section \<open>Properties\<close>

subsection \<open>What each database call changes\<close>

lemma next_reply_frame:
  "next_reply w = (r, w1) \<Longrightarrow>
     composes w1 = composes w \<and> clones w1 = clones w \<and> journal w1 = journal w \<and>
     logged w1 = logged w \<and> open_conns w1 = open_conns w \<and> handles w1 = handles w"
  by (auto simp: next_reply_def split: list.splits)

lemma Conn_Exec_journal:
  "Conn_Exec h s w = ((n, err), w') \<Longrightarrow> journal w' = journal w @ [Executed s n err]"
  by (cases s) (auto simp: Conn_Exec_def record_event_def split: prod.splits option.splits dest!: next_reply_frame)

lemma Conn_Exec_frame:
  "Conn_Exec h s w = ((n, err), w') \<Longrightarrow>
     logged w' = logged w \<and> open_conns w' = open_conns w \<and> handles w' = handles w"
  by (cases s) (auto simp: Conn_Exec_def record_event_def split: prod.splits option.splits dest!: next_reply_frame)

lemma Conn_Exec_failed:
  "Conn_Exec h s w = ((n, Some e), w') \<Longrightarrow> composes w' = composes w \<and> clones w' = clones w"
  by (auto simp: Conn_Exec_def record_event_def split: prod.splits option.splits dest!: next_reply_frame)

lemma Conn_Exec_DeleteClones:
  "Conn_Exec h (sqlDeleteClones c) w = ((n, None), w') \<Longrightarrow>
     n = int (length (expired_clones c (composes w) (clones w))) \<and>
     composes w' = composes w \<and>
     clones w' = filter (\<lambda>cl. compose_id cl \<notin> set (map job_id (expired_composes c (composes w)))) (clones w)"
  by (auto simp: Conn_Exec_def record_event_def split: prod.splits option.splits dest!: next_reply_frame)

lemma Conn_Exec_DeleteComposes:
  "Conn_Exec h (sqlDeleteComposes c) w = ((n, None), w') \<Longrightarrow>
     n = int (length (expired_composes c (composes w))) \<and>
     clones w' = clones w \<and>
     composes w' = filter (\<lambda>co. \<not> created_at co < c) (composes w)"
  by (auto simp: Conn_Exec_def record_event_def split: prod.splits option.splits dest!: next_reply_frame)

lemma Conn_Exec_VacuumAnalyze:
  "Conn_Exec h sqlVacuumAnalyze w = ((n, None), w') \<Longrightarrow>
     n = 0 \<and> clones w' = clones w \<and> composes w' = composes w"
  by (auto simp: Conn_Exec_def record_event_def split: prod.splits option.splits dest!: next_reply_frame)

lemma DeleteClones_ok:
  assumes "DeleteClones db c w = ((n, None), w')"
  shows "(journal w' = journal w @ [Executed (sqlDeleteClones c) n None]) \<and>
      (logged w' = logged w) \<and>
      (open_conns w' = open_conns w) \<and>
      (n = int (length (expired_clones c (composes w) (clones w)))) \<and>
      (composes w' = composes w) \<and>
      (clones w' = filter (\<lambda>cl. compose_id cl \<notin> set (map job_id (expired_composes c (composes w)))) (clones w))"
  using assms
  by (auto simp: DeleteClones_def split: prod.splits option.splits
      dest: Conn_Exec_journal Conn_Exec_frame Conn_Exec_DeleteClones)

lemma DeleteClones_err:
  assumes "DeleteClones db c w = ((n, Some err), w')"
  shows "(\<exists>e0. err = Errorf ''Error deleting clones: '' e0 \<and>
           journal w' = journal w @ [Executed (sqlDeleteClones c) n (Some e0)]) \<and>
      (logged w' = logged w) \<and>
      (open_conns w' = open_conns w) \<and>
      (composes w' = composes w) \<and>
      (clones w' = clones w)"
  using assms
  by (auto simp: DeleteClones_def split: prod.splits option.splits
      dest: Conn_Exec_journal Conn_Exec_frame Conn_Exec_failed)

lemma DeleteComposes_ok:
  assumes "DeleteComposes db c w = ((n, None), w')"
  shows "(journal w' = journal w @ [Executed (sqlDeleteComposes c) n None]) \<and>
      (logged w' = logged w) \<and>
      (open_conns w' = open_conns w) \<and>
      (n = int (length (expired_composes c (composes w)))) \<and>
      (clones w' = clones w) \<and>
      (composes w' = filter (\<lambda>co. \<not> created_at co < c) (composes w))"
  using assms
  by (auto simp: DeleteComposes_def split: prod.splits option.splits
      dest: Conn_Exec_journal Conn_Exec_frame Conn_Exec_DeleteComposes)

lemma DeleteComposes_err:
  assumes "DeleteComposes db c w = ((n, Some err), w')"
  shows "(\<exists>e0. err = Errorf ''Error deleting composes: '' e0 \<and>
           journal w' = journal w @ [Executed (sqlDeleteComposes c) n (Some e0)]) \<and>
      (logged w' = logged w) \<and>
      (open_conns w' = open_conns w) \<and>
      (composes w' = composes w) \<and>
      (clones w' = clones w)"
  using assms
  by (auto simp: DeleteComposes_def split: prod.splits option.splits
      dest: Conn_Exec_journal Conn_Exec_frame Conn_Exec_failed)

lemma VacuumAnalyze_ok:
  assumes "VacuumAnalyze db w = (None, w')"
  shows "(journal w' = journal w @ [Executed sqlVacuumAnalyze 0 None]) \<and>
      (logged w' = logged w) \<and>
      (open_conns w' = open_conns w) \<and>
      (clones w' = clones w) \<and>
      (composes w' = composes w)"
  using assms
  by (auto simp: VacuumAnalyze_def split: prod.splits option.splits
      dest: Conn_Exec_journal Conn_Exec_frame Conn_Exec_VacuumAnalyze)

lemma VacuumAnalyze_err:
  assumes "VacuumAnalyze db w = (Some err, w')"
  shows "(\<exists>n e0. err = Errorf ''Error running VACUUM ANALYZE: '' e0 \<and>
           journal w' = journal w @ [Executed sqlVacuumAnalyze n (Some e0)]) \<and>
      (logged w' = logged w) \<and>
      (open_conns w' = open_conns w) \<and>
      (composes w' = composes w) \<and>
      (clones w' = clones w)"
  using assms
  by (auto simp: VacuumAnalyze_def split: prod.splits option.splits
      dest: Conn_Exec_journal Conn_Exec_frame Conn_Exec_failed)

subsection \<open>One pass of the loop\<close>

lemma delete_pass_Break:
  assumes "delete_pass db c w = (Break, w')"
  shows "(journal w' = journal w @ iteration c (int (length (expired_clones c (composes w) (clones w))), 0)) \<and>
      (logged w' = logged w) \<and>
      (open_conns w' = open_conns w) \<and>
      (expired_composes c (composes w) = []) \<and>
      (composes w' = composes w) \<and>
      (clones w' = filter (\<lambda>cl. compose_id cl \<notin> set (map job_id (expired_composes c (composes w)))) (clones w))"
  using assms
  by (auto simp: delete_pass_def iteration_def expired_composes_def filter_empty_conv filter_id_conv
      split: prod.splits option.splits if_splits
      dest!: DeleteClones_ok DeleteComposes_ok VacuumAnalyze_ok)

lemma delete_pass_Continue:
  assumes "delete_pass db c w = (Continue, w')"
  shows "(\<exists>n. n \<noteq> 0 \<and> n = int (length (expired_composes c (composes w))) \<and>
           journal w' = journal w @ iteration c (int (length (expired_clones c (composes w) (clones w))), n) \<and>
           logged w' = logged w @ [Logf Info ''Deleted results for %d'' [AInt n]]) \<and>
      (open_conns w' = open_conns w) \<and>
      (composes w' = filter (\<lambda>co. \<not> created_at co < c) (composes w)) \<and>
      (clones w' = filter (\<lambda>cl. compose_id cl \<notin> set (map job_id (expired_composes c (composes w)))) (clones w))"
  using assms
  by (auto simp: delete_pass_def iteration_def logf_def split: prod.splits option.splits if_splits
      dest!: DeleteClones_ok DeleteComposes_ok VacuumAnalyze_ok)

lemma delete_pass_Abort:
  assumes "delete_pass db c w = (Abort err, w')"
  shows "(\<exists>evs entry. journal w' = journal w @ evs \<and> logged w' = logged w @ [entry] \<and>
           aborted_pass c err evs entry) \<and>
      (open_conns w' = open_conns w)"
  using assms
  by (auto simp: delete_pass_def logf_def split: prod.splits option.splits if_splits
      dest!: DeleteClones_ok DeleteComposes_ok VacuumAnalyze_ok DeleteClones_err DeleteComposes_err VacuumAnalyze_err
      intro: aborted_pass.intros)


subsection \<open>Queries, connection and reports\<close>

lemma Conn_QueryRow_Scan_frame:
  "Conn_QueryRow_Scan h s w = ((n, err), w') \<Longrightarrow>
     journal w' = journal w @ [Queried s err] \<and> logged w' = logged w \<and>
     open_conns w' = open_conns w \<and> composes w' = composes w \<and> clones w' = clones w \<and>
     (err = None \<longrightarrow> n = count_of s w)"
  by (cases s) (auto simp: Conn_QueryRow_Scan_def record_event_def
      split: prod.splits option.splits dest!: next_reply_frame)

lemma ExpiredClonesCount_frame:
  "ExpiredClonesCount db c w = ((n, err), w') \<Longrightarrow>
     journal w' = journal w @ [Queried (sqlExpiredClonesCount c) err] \<and> logged w' = logged w \<and>
     open_conns w' = open_conns w \<and> composes w' = composes w \<and> clones w' = clones w \<and>
     (err = None \<longrightarrow> n = int (length (expired_clones c (composes w) (clones w))))"
  by (auto simp: ExpiredClonesCount_def split: prod.splits option.splits
      dest!: Conn_QueryRow_Scan_frame)

lemma ExpiredComposesCount_frame:
  "ExpiredComposesCount db c w = ((n, err), w') \<Longrightarrow>
     journal w' = journal w @ [Queried (sqlExpiredComposesCount c) err] \<and> logged w' = logged w \<and>
     open_conns w' = open_conns w \<and> composes w' = composes w \<and> clones w' = clones w \<and>
     (err = None \<longrightarrow> n = int (length (expired_composes c (composes w))))"
  by (auto simp: ExpiredComposesCount_def split: prod.splits option.splits
      dest!: Conn_QueryRow_Scan_frame)

lemma Conn_Query_frame:
  "Conn_Query h s w = (res, w') \<Longrightarrow>
     journal w' = journal w @ [Queried s (snd res)] \<and> logged w' = logged w \<and>
     open_conns w' = open_conns w \<and> composes w' = composes w \<and> clones w' = clones w"
  by (auto simp: Conn_Query_def record_event_def
      split: prod.splits option.splits dest!: next_reply_frame)

lemma LogVacuumStats_rows_frame:
  "LogVacuumStats_rows rows rowsErr deleted w = (res, w') \<Longrightarrow>
     journal w' = journal w \<and> open_conns w' = open_conns w \<and>
     composes w' = composes w \<and> clones w' = clones w"
  by (induction rows rowsErr deleted w rule: LogVacuumStats_rows.induct)
     (auto simp: log_fields_def split: option.splits)

lemma LogVacuumStats_rows_deleted:
  "fst (fst (LogVacuumStats_rows rows rowsErr deleted w)) = 0 \<or>
   fst (fst (LogVacuumStats_rows rows rowsErr deleted w)) = deleted"
  by (induction rows rowsErr deleted w rule: LogVacuumStats_rows.induct)
     (auto split: option.splits)

lemma LogVacuumStats_frame:
  "LogVacuumStats db w = (res, w') \<Longrightarrow>
     (\<exists>q. journal w' = journal w @ [Queried sqlVacuumStats q]) \<and> open_conns w' = open_conns w \<and>
     composes w' = composes w \<and> clones w' = clones w"
  by (auto simp: LogVacuumStats_def split: prod.splits option.splits
      dest!: Conn_Query_frame LogVacuumStats_rows_frame)

lemma report_stats_frame:
  "(\<exists>q. journal (report_stats db w) = journal w @ [Queried sqlVacuumStats q]) \<and>
   open_conns (report_stats db w) = open_conns w \<and>
   composes (report_stats db w) = composes w \<and> clones (report_stats db w) = clones w"
  by (auto simp: report_stats_def logf_def split: prod.splits option.splits
      dest!: LogVacuumStats_frame)

lemma newDB_ok:
  "newDB dbURL w = ((db, None), w') \<Longrightarrow>
     journal w' = journal w @ [Connected dbURL None] \<and> logged w' = logged w \<and>
     open_conns w' = Conn db # open_conns w \<and> Conn db \<noteq> 0 \<and>
     composes w' = composes w \<and> clones w' = clones w"
  by (auto simp: newDB_def pgx_Connect_def record_event_def Let_def
      split: prod.splits option.splits dest!: next_reply_frame)

lemma Close_closes: "Conn db \<notin> set (open_conns (snd (Close db w)))"
  by (simp add: Close_def Conn_Close_def record_event_def split: prod.splits)

lemma newDB_err:
  "newDB dbURL w = ((db, Some err), w') \<Longrightarrow>
     journal w' = journal w @ [Connected dbURL (Some err)] \<and> logged w' = logged w \<and>
     open_conns w' = open_conns w \<and> composes w' = composes w \<and> clones w' = clones w"
  by (auto simp: newDB_def pgx_Connect_def record_event_def Let_def
      split: prod.splits option.splits dest!: next_reply_frame)

lemma dry_run_report_frame:
  "(\<exists>q1 q2. journal (dry_run_report db c w) =
      journal w @ [Queried (sqlExpiredClonesCount c) q1, Queried (sqlExpiredComposesCount c) q2]) \<and>
   open_conns (dry_run_report db c w) = open_conns w \<and>
   composes (dry_run_report db c w) = composes w \<and> clones (dry_run_report db c w) = clones w"
  by (auto simp: dry_run_report_def logf_def Let_def split: prod.splits option.splits
      dest!: ExpiredClonesCount_frame ExpiredComposesCount_frame)

subsection \<open>The loop\<close>

lemma loop_live_unfold:
  "DBCleanup_loop db False c w =
     (case delete_pass db c w of
        (Abort err, w1) \<Rightarrow> (Some err, w1)
      | (Break, w1) \<Rightarrow> (None, w1)
      | (Continue, w1) \<Rightarrow> DBCleanup_loop db False c w1)"
  by (simp add: DBCleanup_loop.simps [of db False c w])

lemma loop_dry_unfold:
  "DBCleanup_loop db True c w = (None, dry_run_report db c w)"
  by (simp add: DBCleanup_loop.simps [of db True c w])

lemma loop_live_trace:
  "\<not> dryRun \<Longrightarrow> DBCleanup_loop db dryRun c w = (res, w') \<Longrightarrow>
     \<exists>its rest. journal w' = journal w @ concat (map (iteration c) its) @ rest \<and>
       (\<forall>it \<in> set its. snd it \<noteq> 0) \<and>
       (expired_composes c (composes w) = [] \<longrightarrow> its = []) \<and> length its \<le> 1 \<and>
       (case res of
          None \<Rightarrow> \<exists>nc. rest = iteration c (nc, 0)
        | Some err \<Rightarrow> aborted_pass c err rest (last (logged w')))"
proof (induction db dryRun c w arbitrary: res w' rule: DBCleanup_loop.induct)
  case (1 db dryRun c w)
  from 1(2) have live [simp]: "dryRun = False"
    by simp
  obtain out w1 where pass: "delete_pass db c w = (out, w1)"
    by (cases "delete_pass db c w")
  show ?case
  proof (cases out)
    case (Abort err)
    with 1(2,3) pass have res: "res = Some err" "w' = w1"
      by (simp_all add: loop_live_unfold [of db c w])
    from pass Abort obtain evs entry where
      "journal w1 = journal w @ evs" "logged w1 = logged w @ [entry]" "aborted_pass c err evs entry"
      using delete_pass_Abort by blast
    then have "journal w' = journal w @ concat (map (iteration c) []) @ evs \<and>
        aborted_pass c err evs (last (logged w'))"
      using res by simp
    then show ?thesis
      using res by (intro exI [of _ "[]"] exI [of _ evs]) simp
  next
    case Break
    with 1(2,3) pass have res: "res = None" "w' = w1"
      by (simp_all add: loop_live_unfold [of db c w])
    from pass Break have
      "journal w1 = journal w @ iteration c (int (length (expired_clones c (composes w) (clones w))), 0)"
      using delete_pass_Break by blast
    then show ?thesis
      using res
      by (intro exI [of _ "[]"]
          exI [of _ "iteration c (int (length (expired_clones c (composes w) (clones w))), 0)"])
        auto
  next
    case Continue
    with 1(2,3) pass have run: "DBCleanup_loop db dryRun c w1 = (res, w')"
      by (simp add: loop_live_unfold [of db c w])
    from pass Continue obtain n where n: "n \<noteq> 0" "n = int (length (expired_composes c (composes w)))"
      "journal w1 = journal w @ iteration c (int (length (expired_clones c (composes w) (clones w))), n)"
      and comp: "composes w1 = filter (\<lambda>co. \<not> created_at co < c) (composes w)"
      using delete_pass_Continue by blast
    have clean: "expired_composes c (composes w1) = []"
      by (simp add: comp expired_composes_def)
    from "1.IH" [OF 1(2) pass [symmetric] _ 1(2) run] Continue
    obtain its rest where ih: "journal w' = journal w1 @ concat (map (iteration c) its) @ rest"
      "its = []"
      "case res of None \<Rightarrow> \<exists>nc. rest = iteration c (nc, 0)
        | Some err \<Rightarrow> aborted_pass c err rest (last (logged w'))"
      using clean by auto
    let ?it = "(int (length (expired_clones c (composes w) (clones w))), n)"
    have "journal w' = journal w @ concat (map (iteration c) [?it]) @ rest"
      using ih(1,2) n(3) by simp
    moreover have "\<forall>it \<in> set [?it]. snd it \<noteq> 0"
      using n(1) by simp
    moreover have "expired_composes c (composes w) = [] \<longrightarrow> [?it] = []"
      using n(1,2) by simp
    ultimately show ?thesis
      using ih(3) by (intro exI [of _ "[?it]"] exI [of _ rest]) simp
  qed
qed

lemma loop_live_success_tables:
  "\<not> dryRun \<Longrightarrow> DBCleanup_loop db dryRun c w = (None, w') \<Longrightarrow>
     composes w' = filter (\<lambda>co. \<not> created_at co < c) (composes w) \<and>
     clones w' = filter (\<lambda>cl. compose_id cl \<notin> set (map job_id (expired_composes c (composes w)))) (clones w)"
proof (induction db dryRun c w arbitrary: w' rule: DBCleanup_loop.induct)
  case (1 db dryRun c w)
  from 1(2) have live [simp]: "dryRun = False"
    by simp
  obtain out w1 where pass: "delete_pass db c w = (out, w1)"
    by (cases "delete_pass db c w")
  show ?case
  proof (cases out)
    case (Abort err)
    with 1(2,3) pass show ?thesis
      by (simp add: loop_live_unfold [of db c w])
  next
    case Break
    with 1(2,3) pass have "w' = w1"
      by (simp add: loop_live_unfold [of db c w])
    with pass Break show ?thesis
      using delete_pass_Break [of db c w w1]
      by (auto simp: expired_composes_def filter_empty_conv filter_id_conv)
  next
    case Continue
    with 1(2,3) pass have run: "DBCleanup_loop db dryRun c w1 = (None, w')"
      by (simp add: loop_live_unfold [of db c w])
    from pass Continue have w1: "composes w1 = filter (\<lambda>co. \<not> created_at co < c) (composes w)"
      "clones w1 = filter (\<lambda>cl. compose_id cl \<notin> set (map job_id (expired_composes c (composes w)))) (clones w)"
      using delete_pass_Continue [of db c w w1] by simp_all
    have clean: "expired_composes c (composes w1) = []"
      by (simp add: w1(1) expired_composes_def)
    from "1.IH" [OF 1(2) pass [symmetric] _ 1(2) run] Continue
    have "composes w' = filter (\<lambda>co. \<not> created_at co < c) (composes w1)"
      "clones w' = filter (\<lambda>cl. compose_id cl \<notin> set (map job_id (expired_composes c (composes w1)))) (clones w1)"
      by simp_all
    then show ?thesis
      using w1 clean by simp
  qed
qed

lemma next_reply_fault_free:
  "fault_free w \<Longrightarrow> next_reply w = (r, w1) \<Longrightarrow> failure r = None \<and> fault_free w1"
  by (auto simp: fault_free_def next_reply_def no_reply_def split: list.splits)

lemma Conn_Exec_fault_free:
  "fault_free w \<Longrightarrow> Conn_Exec h s w = ((n, e), w') \<Longrightarrow> e = None \<and> fault_free w'"
  by (cases s)
    (auto simp: Conn_Exec_def record_event_def fault_free_def next_reply_def no_reply_def
      split: prod.splits option.splits list.splits)

lemma DeleteClones_fault_free:
  "fault_free w \<Longrightarrow> DeleteClones db c w = ((n, e), w') \<Longrightarrow> e = None \<and> fault_free w'"
  unfolding DeleteClones_def
  by (cases "Conn_Exec (Conn db) (sqlDeleteClones c) w")
    (auto split: option.splits dest: Conn_Exec_fault_free)

lemma DeleteComposes_fault_free:
  "fault_free w \<Longrightarrow> DeleteComposes db c w = ((n, e), w') \<Longrightarrow> e = None \<and> fault_free w'"
  unfolding DeleteComposes_def
  by (cases "Conn_Exec (Conn db) (sqlDeleteComposes c) w")
    (auto split: option.splits dest: Conn_Exec_fault_free)

lemma VacuumAnalyze_fault_free:
  "fault_free w \<Longrightarrow> VacuumAnalyze db w = (e, w') \<Longrightarrow> e = None \<and> fault_free w'"
  unfolding VacuumAnalyze_def
  by (cases "Conn_Exec (Conn db) sqlVacuumAnalyze w")
    (auto split: option.splits dest: Conn_Exec_fault_free)

lemma logf_fault_free: "fault_free (logf l fmt as w) = fault_free w"
  by (simp add: logf_def fault_free_def)

lemma delete_pass_fault_free:
  assumes "fault_free w" and "delete_pass db c w = (out, w')"
  shows "(\<forall>e. out \<noteq> Abort e) \<and> fault_free w'"
proof -
  obtain n1 e1 w1 where a: "DeleteClones db c w = ((n1, e1), w1)"
    by (metis prod.exhaust)
  obtain n2 e2 w2 where b: "DeleteComposes db c w1 = ((n2, e2), w2)"
    by (metis prod.exhaust)
  obtain e3 w3 where d: "VacuumAnalyze db w2 = (e3, w3)"
    by (metis prod.exhaust)
  from DeleteClones_fault_free [OF assms(1) a] have 1: "e1 = None" "fault_free w1"
    by simp_all
  from DeleteComposes_fault_free [OF 1(2) b] have 2: "e2 = None" "fault_free w2"
    by simp_all
  from VacuumAnalyze_fault_free [OF 2(2) d] have 3: "e3 = None" "fault_free w3"
    by simp_all
  from assms(2) show ?thesis
    unfolding delete_pass_def using a b d 1 2 3
    by (auto simp: logf_fault_free split: if_splits)
qed

lemma loop_fault_free:
  "\<not> dryRun \<Longrightarrow> fault_free w \<Longrightarrow> fst (DBCleanup_loop db dryRun c w) = None"
proof (induction db dryRun c w rule: DBCleanup_loop.induct)
  case (1 db dryRun c w)
  from 1(2) have live [simp]: "dryRun = False"
    by simp
  obtain out w1 where pass: "delete_pass db c w = (out, w1)"
    by (cases "delete_pass db c w")
  with 1(3) have ok: "\<forall>e. out \<noteq> Abort e" "fault_free w1"
    using delete_pass_fault_free by blast+
  show ?case
  proof (cases out)
    case (Abort err)
    with ok show ?thesis by simp
  next
    case Break
    with pass show ?thesis
      by (simp add: loop_live_unfold [of db c w])
  next
    case Continue
    with "1.IH" [OF 1(2) pass [symmetric] _ 1(2) ok(2)] pass show ?thesis
      by (simp add: loop_live_unfold [of db c w])
  qed
qed

lemma delete_pass_clean:
  assumes "expired_composes c (composes w) = []" and "delete_pass db c w = (out, w')"
  shows "out \<noteq> Continue \<and> composes w' = composes w \<and> clones w' = clones w \<and>
     (\<forall>ev \<in> set (added w w'). \<forall>s n. ev = Executed s n None \<longrightarrow> n = 0)"
proof -
  have none: "expired_clones c (composes w) (clones w) = []"
    using assms(1) by (simp add: expired_clones_def)
  have keep: "filter (\<lambda>cl. compose_id cl \<notin> set (map job_id (expired_composes c (composes w)))) (clones w)
      = clones w"
    using assms(1) by simp
  have keep': "filter (\<lambda>co. \<not> created_at co < c) (composes w) = composes w"
    using assms(1) by (simp add: expired_composes_def filter_empty_conv filter_id_conv)
  show ?thesis
  proof (cases out)
    case (Abort err)
    then obtain evs entry where evs: "journal w' = journal w @ evs" "aborted_pass c err evs entry"
      using assms(2) delete_pass_Abort by blast
    have tabs: "composes w' = composes w \<and> clones w' = clones w \<and>
        (\<forall>m. Executed (sqlDeleteClones c) m None \<in> set evs \<longrightarrow> m = 0) \<and>
        (\<forall>m. Executed (sqlDeleteComposes c) m None \<in> set evs \<longrightarrow> m = 0)"
      using assms(2) Abort evs(1) none assms(1) keep'
      by (auto simp: delete_pass_def logf_def split: prod.splits option.splits if_splits
          dest!: DeleteClones_ok DeleteComposes_ok VacuumAnalyze_ok
            DeleteClones_err DeleteComposes_err VacuumAnalyze_err)
    from evs(2) tabs have "\<forall>ev \<in> set evs. \<forall>s n. ev = Executed s n None \<longrightarrow> n = 0"
      by (cases rule: aborted_pass.cases) auto
    then show ?thesis
      using Abort tabs evs(1) by (simp add: added_def)
  next
    case Break
    then show ?thesis
      using delete_pass_Break [of db c w w'] assms none keep
      by (simp add: added_def iteration_def)
  next
    case Continue
    then show ?thesis
      using delete_pass_Continue [of db c w w'] assms by simp
  qed
qed

lemma loop_clean:
  assumes "expired_composes c (composes w) = []" and "DBCleanup_loop db False c w = (res, w')"
  shows "composes w' = composes w \<and> clones w' = clones w \<and>
     (\<forall>ev \<in> set (added w w'). \<forall>s n. ev = Executed s n None \<longrightarrow> n = 0)"
proof -
  obtain out w1 where pass: "delete_pass db c w = (out, w1)"
    by (cases "delete_pass db c w")
  from delete_pass_clean [OF assms(1) pass] have "out \<noteq> Continue"
    by simp
  with assms(2) pass have "w' = w1"
    by (cases out) (simp_all add: loop_live_unfold [of db c w])
  with delete_pass_clean [OF assms(1) pass] show ?thesis
    by simp
qed

lemma loop_open_conns:
  "DBCleanup_loop db dryRun c w = (res, w') \<Longrightarrow> open_conns w' = open_conns w"
proof (induction db dryRun c w arbitrary: res w' rule: DBCleanup_loop.induct)
  case (1 db dryRun c w)
  show ?case
  proof (cases dryRun)
    case True
    with 1(2) show ?thesis
      using dry_run_report_frame [of db c w] by (simp add: loop_dry_unfold)
  next
    case False
    obtain out w1 where pass: "delete_pass db c w = (out, w1)"
      by (cases "delete_pass db c w")
    show ?thesis
    proof (cases out)
      case (Abort err)
      with 1(2) pass False show ?thesis
        using delete_pass_Abort [of db c w err w1] by (simp add: loop_live_unfold [of db c w])
    next
      case Break
      with 1(2) pass False show ?thesis
        using delete_pass_Break [of db c w w1] by (simp add: loop_live_unfold [of db c w])
    next
      case Continue
      with 1(2) pass False have "DBCleanup_loop db dryRun c w1 = (res, w')"
        by (simp add: loop_live_unfold [of db c w])
      from "1.IH" [OF False pass [symmetric] _ this] Continue have "open_conns w' = open_conns w1"
        by simp
      with pass Continue show ?thesis
        using delete_pass_Continue [of db c w w1] by simp
    qed
  qed
qed

subsection \<open>The whole run\<close>

lemma added_append: "journal w' = journal w @ evs \<Longrightarrow> added w w' = evs"
  by (simp add: added_def)

lemma DBCleanup_not_connected:
  "newDB dbURL w = ((db, Some err), w1) \<Longrightarrow> DBCleanup AddDate dbURL dryRun n w = (Some err, w1)"
  by (simp add: DBCleanup_def)

lemma DBCleanup_connected:
  "newDB dbURL w = ((db, None), w1) \<Longrightarrow>
     DBCleanup AddDate dbURL dryRun n w =
       (case DBCleanup_loop db dryRun (emailRetentionDate AddDate n (report_stats db w1))
               (report_stats db w1) of
          (Some err, w3) \<Rightarrow> (Some err, w3)
        | (None, w3) \<Rightarrow> (None, report_stats db w3))"
  by (simp add: DBCleanup_def Let_def)

lemma DBCleanup_live_trace:
  assumes conn: "newDB dbURL w = ((db, None), w1)"
    and run: "DBCleanup AddDate dbURL False n w = (res, w')"
  shows "\<exists>q its rest.
      journal w' = journal w @ [Connected dbURL None, Queried sqlVacuumStats q]
        @ concat (map (iteration (emailRetentionDate AddDate n (report_stats db w1))) its) @ rest \<and>
      (\<forall>it \<in> set its. snd it \<noteq> 0) \<and> length its \<le> 1 \<and>
      (case res of
         None \<Rightarrow> \<exists>nc q'. rest = iteration (emailRetentionDate AddDate n (report_stats db w1)) (nc, 0)
                    @ [Queried sqlVacuumStats q']
       | Some err \<Rightarrow>
           aborted_pass (emailRetentionDate AddDate n (report_stats db w1)) err rest (last (logged w')))"
proof -
  let ?w2 = "report_stats db w1"
  let ?C = "emailRetentionDate AddDate n ?w2"
  obtain res0 w3 where loop: "DBCleanup_loop db False ?C ?w2 = (res0, w3)"
    by (metis prod.exhaust)
  from newDB_ok [OF conn] have j1: "journal w1 = journal w @ [Connected dbURL None]"
    by simp
  from report_stats_frame [of db w1] obtain q where j2: "journal ?w2 = journal w1 @ [Queried sqlVacuumStats q]"
    by blast
  from loop_live_trace [OF _ loop] obtain its rest where
    j3: "journal w3 = journal ?w2 @ concat (map (iteration ?C) its) @ rest"
    and its: "\<forall>it \<in> set its. snd it \<noteq> 0" "length its \<le> 1"
    and fin: "case res0 of None \<Rightarrow> \<exists>nc. rest = iteration ?C (nc, 0)
               | Some err \<Rightarrow> aborted_pass ?C err rest (last (logged w3))"
    by auto
  show ?thesis
  proof (cases res0)
    case (Some err)
    with run loop have "res = Some err" "w' = w3"
      by (simp_all add: DBCleanup_connected [OF conn])
    with j1 j2 j3 its fin Some show ?thesis
      by (intro exI [of _ q] exI [of _ its] exI [of _ rest]) simp
  next
    case None
    with run loop have r: "res = None" "w' = report_stats db w3"
      by (simp_all add: DBCleanup_connected [OF conn])
    from report_stats_frame [of db w3] obtain q' where
      j4: "journal (report_stats db w3) = journal w3 @ [Queried sqlVacuumStats q']"
      by blast
    from fin None obtain nc where nc: "rest = iteration ?C (nc, 0)"
      by auto
    show ?thesis
      using j1 j2 j3 j4 its r nc
      by (intro exI [of _ q] exI [of _ its] exI [of _ "rest @ [Queried sqlVacuumStats q']"]) auto
  qed
qed

lemma DBCleanup_dry_trace:
  assumes conn: "newDB dbURL w = ((db, None), w1)"
    and run: "DBCleanup AddDate dbURL True n w = (res, w')"
  shows "res = None \<and> (\<exists>q1 q2 q3 q4.
      journal w' = journal w @
        [Connected dbURL None, Queried sqlVacuumStats q1,
         Queried (sqlExpiredClonesCount (emailRetentionDate AddDate n (report_stats db w1))) q2,
         Queried (sqlExpiredComposesCount (emailRetentionDate AddDate n (report_stats db w1))) q3,
         Queried sqlVacuumStats q4])"
proof -
  let ?w2 = "report_stats db w1"
  let ?C = "emailRetentionDate AddDate n ?w2"
  let ?w3 = "dry_run_report db ?C ?w2"
  from run have r: "res = None" "w' = report_stats db ?w3"
    by (simp_all add: DBCleanup_connected [OF conn] loop_dry_unfold)
  from newDB_ok [OF conn] have j1: "journal w1 = journal w @ [Connected dbURL None]"
    by simp
  from report_stats_frame [of db w1] obtain q1 where
    j2: "journal ?w2 = journal w1 @ [Queried sqlVacuumStats q1]"
    by blast
  from dry_run_report_frame [of db ?C ?w2] obtain q2 q3 where
    j3: "journal ?w3 = journal ?w2 @ [Queried (sqlExpiredClonesCount ?C) q2,
      Queried (sqlExpiredComposesCount ?C) q3]"
    by blast
  from report_stats_frame [of db ?w3] obtain q4 where
    j4: "journal (report_stats db ?w3) = journal ?w3 @ [Queried sqlVacuumStats q4]"
    by blast
  show ?thesis
    using r j1 j2 j3 j4 by simp
qed

lemma DBCleanup_open_conns:
  assumes "newDB dbURL w = ((db, e), w1)" and "DBCleanup AddDate dbURL dryRun n w = (res, w')"
  shows "open_conns w' = open_conns w1"
proof (cases e)
  case (Some err)
  with assms show ?thesis
    by (simp add: DBCleanup_not_connected)
next
  case None
  let ?w2 = "report_stats db w1"
  obtain res0 w3 where loop:
    "DBCleanup_loop db dryRun (emailRetentionDate AddDate n ?w2) ?w2 = (res0, w3)"
    by (metis prod.exhaust)
  from loop_open_conns [OF loop] have "open_conns w3 = open_conns w1"
    using report_stats_frame [of db w1] by simp
  moreover have "open_conns (report_stats db w3) = open_conns w3"
    using report_stats_frame [of db w3] by simp
  moreover have "w' = w3 \<or> w' = report_stats db w3"
    using assms None loop by (cases res0) (simp_all add: DBCleanup_connected)
  ultimately show ?thesis
    by auto
qed

lemma DBCleanup_dry_tables:
  assumes "DBCleanup AddDate dbURL True n w = (res, w')"
  shows "composes w' = composes w \<and> clones w' = clones w"
proof -
  obtain db e w1 where conn: "newDB dbURL w = ((db, e), w1)"
    by (metis prod.exhaust)
  show ?thesis
  proof (cases e)
    case (Some err)
    with assms conn show ?thesis
      using newDB_err [of dbURL w db err w1] by (simp add: DBCleanup_not_connected)
  next
    case None
    let ?w2 = "report_stats db w1"
    let ?w3 = "dry_run_report db (emailRetentionDate AddDate n ?w2) ?w2"
    from assms conn None have "w' = report_stats db ?w3"
      by (simp add: DBCleanup_connected loop_dry_unfold)
    then show ?thesis
      using newDB_ok [of dbURL w db w1] conn None report_stats_frame [of db w1]
        dry_run_report_frame [of db "emailRetentionDate AddDate n ?w2" ?w2]
        report_stats_frame [of db ?w3]
      by simp
  qed
qed

subsection \<open>Journal entries of a run\<close>

lemma cutoffs_used_append: "cutoffs_used (xs @ ys) = cutoffs_used xs @ cutoffs_used ys"
  by (induction xs) (auto split: option.splits)

lemma cutoffs_used_iterations: "set (cutoffs_used (concat (map (iteration c) its))) \<subseteq> {c}"
  by (induction its) (auto simp: iteration_def cutoffs_used_append)

lemma cutoffs_used_aborted:
  "aborted_pass c err rest entry \<Longrightarrow> set (cutoffs_used rest) = {c}"
  by (cases rule: aborted_pass.cases) auto

lemma no_fatal_iterations: "\<not> list_ex fatal (concat (map (iteration c) its))"
  by (induction its) (auto simp: iteration_def)

lemma fatal_aborted: "aborted_pass c err rest entry \<Longrightarrow> list_ex fatal rest"
  by (cases rule: aborted_pass.cases) auto

lemma run_cutoff_connected:
  "newDB dbURL w = ((db, e), w1) \<Longrightarrow>
     run_cutoff AddDate dbURL n w = emailRetentionDate AddDate n (report_stats db w1)"
  by (simp add: run_cutoff_def)

lemma cutoffs_used_run:
  assumes "newDB dbURL w = ((db, None), w1)"
    and "DBCleanup AddDate dbURL dryRun n w = (res, w')"
  shows "set (cutoffs_used (added w w')) = {emailRetentionDate AddDate n (report_stats db w1)}"
proof -
  let ?C = "emailRetentionDate AddDate n (report_stats db w1)"
  show "set (cutoffs_used (added w w')) = {?C}"
  proof (cases dryRun)
    case True
    with assms DBCleanup_dry_trace [of dbURL w db w1 AddDate n res w'] obtain evs where
      "journal w' = journal w @ evs" "set (cutoffs_used evs) = {?C}"
      by fastforce
    then show ?thesis
      by (simp add: added_append)
  next
    case False
    from False assms DBCleanup_live_trace [of dbURL w db w1 AddDate n res w']
    obtain q its rest where tr:
      "journal w' = journal w @ [Connected dbURL None, Queried sqlVacuumStats q]
         @ concat (map (iteration ?C) its) @ rest"
      and fin: "case res of
          None \<Rightarrow> \<exists>nc q'. rest = iteration ?C (nc, 0) @ [Queried sqlVacuumStats q']
        | Some err \<Rightarrow> aborted_pass ?C err rest (last (logged w'))"
      by auto
    have "set (cutoffs_used rest) = {?C}"
    proof (cases res)
      case None
      with fin show ?thesis
        by (auto simp: iteration_def)
    next
      case (Some err)
      with fin show ?thesis
        using cutoffs_used_aborted by simp
    qed
    then show ?thesis
      using tr cutoffs_used_iterations [of ?C its]
      by (auto simp: added_def cutoffs_used_append)
  qed
qed

lemma cutoffs_used_run_cutoff:
  assumes "newDB dbURL w = ((db, None), w1)"
    and "DBCleanup AddDate dbURL dryRun n w = (res, w')"
  shows "set (cutoffs_used (added w w')) = {run_cutoff AddDate dbURL n w}"
  using cutoffs_used_run [OF assms] run_cutoff_connected [OF assms(1)] by simp

lemma DBCleanup_live_success:
  assumes "DBCleanup AddDate dbURL False n w = (None, w')"
  shows "composes w' = filter (\<lambda>co. \<not> created_at co < run_cutoff AddDate dbURL n w) (composes w) \<and>
    clones w' = filter (\<lambda>cl. compose_id cl
        \<notin> set (map job_id (expired_composes (run_cutoff AddDate dbURL n w) (composes w)))) (clones w)"
proof -
  obtain db e w1 where conn: "newDB dbURL w = ((db, e), w1)"
    by (metis prod.exhaust)
  let ?w2 = "report_stats db w1"
  let ?C = "emailRetentionDate AddDate n ?w2"
  have C: "run_cutoff AddDate dbURL n w = ?C"
    using conn by (rule run_cutoff_connected)
  from assms conn have e: "e = None"
    by (cases e) (simp_all add: DBCleanup_not_connected)
  obtain res0 w3 where loop: "DBCleanup_loop db False ?C ?w2 = (res0, w3)"
    by (metis prod.exhaust)
  from assms conn e loop have r: "res0 = None" "w' = report_stats db w3"
    by (cases res0; simp add: DBCleanup_connected)+
  have start: "composes ?w2 = composes w" "clones ?w2 = clones w"
    using newDB_ok [of dbURL w db w1] conn e report_stats_frame [of db w1] by simp_all
  from loop_live_success_tables [OF _ loop [unfolded r(1)]] start
  have "composes w3 = filter (\<lambda>co. \<not> created_at co < ?C) (composes w)"
    "clones w3 = filter (\<lambda>cl. compose_id cl
        \<notin> set (map job_id (expired_composes ?C (composes w)))) (clones w)"
    by simp_all
  then show ?thesis
    using r(2) report_stats_frame [of db w3] C by simp
qed

lemma rows_affected_nonzero:
  "rows_affected ev \<noteq> 0 \<Longrightarrow> \<exists>s n. ev = Executed s n None \<and> n \<noteq> 0"
  by (cases ev rule: rows_affected.cases) auto

lemma no_failed_iterations: "\<not> list_ex failed_exec (concat (map (iteration c) its))"
  by (induction its) (auto simp: iteration_def)

lemma aborted_pass_last:
  assumes "aborted_pass c err rest entry"
  shows "\<exists>ok s k e0. rest = ok @ [Executed s k (Some e0)] \<and> \<not> list_ex failed_exec ok \<and>
    ((s = sqlDeleteClones c \<and> err = Errorf ''Error deleting clones: '' e0 \<and>
      entry = Logf Error ''Error deleting clones: %v, %d rows affected'' [AInt k, AErr err]) \<or>
     (s = sqlDeleteComposes c \<and> err = Errorf ''Error deleting composes: '' e0 \<and>
      entry = Logf Error ''Error deleting composes: %v, %d rows affected'' [AInt k, AErr err]) \<or>
     (s = sqlVacuumAnalyze \<and> err = Errorf ''Error running VACUUM ANALYZE: '' e0 \<and>
      entry = Logf Error ''Error running vacuum analyze: %v'' [AErr err]))"
  using assms
proof (cases rule: aborted_pass.cases)
  case (clones_failed e0 k)
  then show ?thesis
    by (intro exI [of _ "[]"] exI [of _ "sqlDeleteClones c"] exI [of _ k] exI [of _ e0]) simp
next
  case (composes_failed e0 m k)
  then show ?thesis
    by (intro exI [of _ "[Executed (sqlDeleteClones c) m None]"] exI [of _ "sqlDeleteComposes c"]
        exI [of _ k] exI [of _ e0]) simp
next
  case (vacuum_failed e0 m k j)
  then show ?thesis
    by (intro exI [of _ "[Executed (sqlDeleteClones c) m None, Executed (sqlDeleteComposes c) k None]"]
        exI [of _ sqlVacuumAnalyze] exI [of _ j] exI [of _ e0]) simp
qed

lemma only_failure_is_last:
  assumes "\<not> list_ex failed_exec xs" and "failed_exec y" and "xs @ [z] = pre @ y # post"
  shows "post = [] \<and> y = z"
proof (cases post rule: rev_cases)
  case Nil
  with assms(3) show ?thesis
    by simp
next
  case (snoc post' l)
  with assms(3) have "xs = pre @ y # post'"
    by simp
  with assms(1,2) show ?thesis
    by (simp add: list_ex_iff)
qed

lemma DBCleanup_sends_no_Close:
  assumes "newDB dbURL w = ((db, e), w1)"
    and "DBCleanup AddDate dbURL dryRun n w = (res, w')"
  shows "open_conns w' = open_conns w1 \<and>
    (if e = None then open_conns w' = Conn db # open_conns w else open_conns w' = open_conns w) \<and>
    filter is_close (added w w') = []"
proof -
  have conns: "open_conns w' = open_conns w1"
    using DBCleanup_open_conns [OF assms] .
  have "filter is_close (added w w') = []"
  proof (cases e)
    case (Some err)
    with assms have "journal w' = journal w @ [Connected dbURL (Some err)]"
      using newDB_err [of dbURL w db err w1] by (simp add: DBCleanup_not_connected)
    then show ?thesis
      by (simp add: added_append)
  next
    case None
    show ?thesis
    proof (cases dryRun)
      case True
      with None assms DBCleanup_dry_trace [of dbURL w db w1 AddDate n res w'] obtain evs where
        "journal w' = journal w @ evs" "filter is_close evs = []"
        by fastforce
      then show ?thesis
        by (simp add: added_append)
    next
      case False
      let ?C = "emailRetentionDate AddDate n (report_stats db w1)"
      from False None assms DBCleanup_live_trace [of dbURL w db w1 AddDate n res w']
      obtain q its rest where tr:
        "journal w' = journal w @ [Connected dbURL None, Queried sqlVacuumStats q]
           @ concat (map (iteration ?C) its) @ rest"
        and fin: "case res of
            None \<Rightarrow> \<exists>nc q'. rest = iteration ?C (nc, 0) @ [Queried sqlVacuumStats q']
          | Some err \<Rightarrow> aborted_pass ?C err rest (last (logged w'))"
        by auto
      have "filter is_close rest = []"
      proof (cases res)
        case None
        with fin show ?thesis
          by (auto simp: iteration_def)
      next
        case (Some err)
        with fin have "aborted_pass ?C err rest (last (logged w'))"
          by simp
        then show ?thesis
          by (cases rule: aborted_pass.cases) simp_all
      qed
      moreover have "filter is_close (concat (map (iteration ?C) its)) = []"
        by (simp add: filter_concat iteration_def comp_def)
      ultimately show ?thesis
        using tr by (simp add: added_def)
    qed
  qed
  with conns show ?thesis
    using assms(1) newDB_ok [of dbURL w db w1] newDB_err [of dbURL w db _ w1]
    by (cases e) auto
qed

section \<open>The claims\<close>

text \<open>
  C10. \<open>LogVacuumStats\<close> returns 0 as its first result on every path: when the query
  fails, when a row fails to scan, when the iterator ends with an error and on success. The
  row loop never changes its counter: it returns 0 or the value the counter had when the
  loop began, and \<open>LogVacuumStats\<close> begins it at 0.
\<close>

theorem LogVacuumStats_first_result_zero:
  "fst (fst (LogVacuumStats d w)) = 0 \<and>
   (fst (fst (LogVacuumStats_rows rows rowsErr deleted w1)) = 0 \<or>
    fst (fst (LogVacuumStats_rows rows rowsErr deleted w1)) = deleted)"
proof -
  have "fst (fst (LogVacuumStats d w)) = 0"
  proof (cases "Conn_Query (Conn d) sqlVacuumStats w")
    case (Pair res w2)
    obtain rs rowsErr' err where res: "res = ((rs, rowsErr'), err)"
      by (metis prod.exhaust)
    show ?thesis
      using Pair res LogVacuumStats_rows_deleted [of rs rowsErr' 0 w2]
      by (cases err) (auto simp: LogVacuumStats_def)
  qed
  then show ?thesis
    using LogVacuumStats_rows_deleted by blast
qed

text \<open>
  C7. A dry run leaves both tables as they were, rows and row counts, and sends no
  statement through \<open>Conn.Exec\<close>: no deletion and no \<open>VACUUM ANALYZE\<close>.
\<close>

theorem dry_run_changes_nothing:
  assumes "DBCleanup AddDate dbURL True n w = (res, w')"
  shows "composes w' = composes w \<and> clones w' = clones w \<and>
    length (composes w') = length (composes w) \<and> length (clones w') = length (clones w) \<and>
    filter is_exec (added w w') = [] \<and> filter sends_mutation (added w w') = []"
proof -
  obtain db e w1 where conn: "newDB dbURL w = ((db, e), w1)"
    by (metis prod.exhaust)
  have "filter is_exec (added w w') = [] \<and> filter sends_mutation (added w w') = []"
  proof (cases e)
    case (Some err)
    with assms conn have "journal w' = journal w @ [Connected dbURL (Some err)]"
      using newDB_err [of dbURL w db err w1] by (simp add: DBCleanup_not_connected)
    then show ?thesis
      by (simp add: added_append)
  next
    case None
    with conn DBCleanup_dry_trace [OF _ assms] obtain evs where
      "journal w' = journal w @ evs" "filter is_exec evs = []" "filter sends_mutation evs = []"
      by fastforce
    then show ?thesis
      by (simp add: added_append)
  qed
  then show ?thesis
    using DBCleanup_dry_tables [OF assms] by simp
qed

theorem dry_run_changes_nothing_witness:
  "fst (DBCleanup thirty_day_months ''db'' True 1 scenario_A) = None \<and>
   map job_id (composes (snd (DBCleanup thirty_day_months ''db'' True 1 scenario_A))) = [1, 2] \<and>
   map clone_id (clones (snd (DBCleanup thirty_day_months ''db'' True 1 scenario_A))) = [7] \<and>
   filter is_exec (added scenario_A (snd (DBCleanup thirty_day_months ''db'' True 1 scenario_A))) = [] \<and>
   filter sends_mutation
     (added scenario_A (snd (DBCleanup thirty_day_months ''db'' True 1 scenario_A))) = [] \<and>
   last (logged (snd (DBCleanup thirty_day_months ''db'' True 1 scenario_A)))
     = Logf Info ''Dryrun, expired composes count: %d (affecting %d clones)'' [AInt 1, AInt 1]"
proof -
  let ?run = "DBCleanup thirty_day_months ''db'' True 1 scenario_A"
  have run: "?run = (fst ?run, snd ?run)"
    by simp
  have "fst ?run = None"
    by code_simp
  moreover have "map job_id (composes scenario_A) = [1, 2]" "map clone_id (clones scenario_A) = [7]"
    by (simp_all add: scenario_A_def no_world_def)
  moreover have "last (logged (snd ?run))
      = Logf Info ''Dryrun, expired composes count: %d (affecting %d clones)'' [AInt 1, AInt 1]"
    by code_simp
  ultimately show ?thesis
    using dry_run_changes_nothing [OF run] by simp
qed

text \<open>
  C1. The connection \<open>newDB\<close> acquires is to be closed before \<open>DBCleanup\<close> returns,
  on every exit path. The code does not do this: \<open>Close\<close> is defined for the connection,
  and \<open>DBCleanup\<close> calls it on none of its returns. On scenario A the connection is
  acquired and is still open when the live run returns without error; it is still open
  when the run on scenario C returns the error of the failed compose deletion, and when
  the dry run returns. One call of \<open>Close\<close> at the return would have closed it.
\<close>

theorem connection_left_open:
  "snd (fst (newDB ''db'' scenario_A)) = None \<and>
   fst (DBCleanup thirty_day_months ''db'' False 1 scenario_A) = None \<and>
   Conn (fst (fst (newDB ''db'' scenario_A)))
     \<in> set (open_conns (snd (DBCleanup thirty_day_months ''db'' False 1 scenario_A))) \<and>
   filter is_close (added scenario_A (snd (DBCleanup thirty_day_months ''db'' False 1 scenario_A))) = [] \<and>
   Conn (fst (fst (newDB ''db'' scenario_A)))
     \<notin> set (open_conns (snd (Close (fst (fst (newDB ''db'' scenario_A)))
         (snd (DBCleanup thirty_day_months ''db'' False 1 scenario_A))))) \<and>
   fst (DBCleanup thirty_day_months ''db'' False 1 scenario_C)
     = Some ''Error deleting composes: constraint violation'' \<and>
   Conn (fst (fst (newDB ''db'' scenario_C)))
     \<in> set (open_conns (snd (DBCleanup thirty_day_months ''db'' False 1 scenario_C))) \<and>
   Conn (fst (fst (newDB ''db'' scenario_A)))
     \<in> set (open_conns (snd (DBCleanup thirty_day_months ''db'' True 1 scenario_A)))"
  by code_simp

text \<open>
  C5. \<open>DBCleanup\<close> returns an error exactly when the run's journal has a failed
  connection, a failed deletion or a failed \<open>VACUUM ANALYZE\<close>. Failed statistics and
  count queries are journal entries that are not fatal, so a run whose only failures are
  of that kind returns no error.
\<close>

theorem error_only_from_connect_delete_reclaim:
  assumes "DBCleanup AddDate dbURL dryRun n w = (res, w')"
  shows "(res \<noteq> None) = list_ex fatal (added w w')"
proof -
  obtain db e w1 where conn: "newDB dbURL w = ((db, e), w1)"
    by (metis prod.exhaust)
  show ?thesis
  proof (cases e)
    case (Some err)
    with assms conn have "res = Some err" "journal w' = journal w @ [Connected dbURL (Some err)]"
      using newDB_err [of dbURL w db err w1] by (simp_all add: DBCleanup_not_connected)
    then show ?thesis
      by (simp add: added_append)
  next
    case None
    show ?thesis
    proof (cases dryRun)
      case True
      with None conn assms DBCleanup_dry_trace [of dbURL w db w1 AddDate n res w'] obtain evs where
        "res = None" "journal w' = journal w @ evs" "\<not> list_ex fatal evs"
        by fastforce
      then show ?thesis
        by (simp add: added_append)
    next
      case False
      let ?C = "emailRetentionDate AddDate n (report_stats db w1)"
      from False None conn assms DBCleanup_live_trace [of dbURL w db w1 AddDate n res w']
      obtain q its rest where tr:
        "journal w' = journal w @ [Connected dbURL None, Queried sqlVacuumStats q]
           @ concat (map (iteration ?C) its) @ rest"
        and fin: "case res of
            None \<Rightarrow> \<exists>nc q'. rest = iteration ?C (nc, 0) @ [Queried sqlVacuumStats q']
          | Some err \<Rightarrow> aborted_pass ?C err rest (last (logged w'))"
        by auto
      have "(res \<noteq> None) = list_ex fatal rest"
      proof (cases res)
        case None
        with fin show ?thesis
          by (auto simp: iteration_def)
      next
        case (Some err)
        with fin show ?thesis
          using fatal_aborted by simp
      qed
      then show ?thesis
        using tr no_fatal_iterations [of ?C its] by (simp add: added_def)
    qed
  qed
qed

theorem error_only_from_connect_delete_reclaim_witness:
  "fst (DBCleanup thirty_day_months ''db'' False 1 scenario_D) = None \<and>
   \<not> list_ex fatal (added scenario_D (snd (DBCleanup thirty_day_months ''db'' False 1 scenario_D))) \<and>
   filter (\<lambda>ev. ev = Queried sqlVacuumStats (Some ''no statistics''))
     (added scenario_D (snd (DBCleanup thirty_day_months ''db'' False 1 scenario_D)))
   = [Queried sqlVacuumStats (Some ''no statistics''), Queried sqlVacuumStats (Some ''no statistics'')] \<and>
   fst (DBCleanup thirty_day_months ''db'' True 1 blind_scenario) = None \<and>
   \<not> list_ex fatal (added blind_scenario (snd (DBCleanup thirty_day_months ''db'' True 1 blind_scenario))) \<and>
   added blind_scenario (snd (DBCleanup thirty_day_months ''db'' True 1 blind_scenario))
   = [Connected ''db'' None, Queried sqlVacuumStats (Some ''no statistics''),
      Queried (sqlExpiredClonesCount 70) (Some ''no count''),
      Queried (sqlExpiredComposesCount 70) (Some ''no count''),
      Queried sqlVacuumStats (Some ''no statistics'')]"
proof -
  let ?run = "DBCleanup thirty_day_months ''db'' False 1 scenario_D"
  let ?dry = "DBCleanup thirty_day_months ''db'' True 1 blind_scenario"
  have run: "?run = (fst ?run, snd ?run)" and dry: "?dry = (fst ?dry, snd ?dry)"
    by simp_all
  have res: "fst ?run = None" "fst ?dry = None"
    by code_simp+
  have "filter (\<lambda>ev. ev = Queried sqlVacuumStats (Some ''no statistics'')) (added scenario_D (snd ?run))
    = [Queried sqlVacuumStats (Some ''no statistics''), Queried sqlVacuumStats (Some ''no statistics'')]"
    by code_simp
  moreover have "added blind_scenario (snd ?dry)
    = [Connected ''db'' None, Queried sqlVacuumStats (Some ''no statistics''),
       Queried (sqlExpiredClonesCount 70) (Some ''no count''),
       Queried (sqlExpiredComposesCount 70) (Some ''no count''),
       Queried sqlVacuumStats (Some ''no statistics'')]"
    by code_simp
  moreover have "\<not> list_ex fatal (added scenario_D (snd ?run))"
    using error_only_from_connect_delete_reclaim [OF run] res(1) by simp
  moreover have "\<not> list_ex fatal (added blind_scenario (snd ?dry))"
    using error_only_from_connect_delete_reclaim [OF dry] res(2) by simp
  ultimately show ?thesis
    using res by simp
qed

text \<open>
  C6. Once connected, a run reads the clock once, after the opening statistics report, and
  its cutoff is \<open>AddDate\<close> of that reading with minus \<open>n\<close> months (the negation of the
  \<open>int\<close> \<open>n\<close>). Every count and every delete statement of the run, in every pass of the
  loop, carries that one value, however far the clock moves during the run.
\<close>

theorem one_cutoff_per_run:
  assumes "newDB dbURL w = ((db, None), w1)"
    and "DBCleanup AddDate dbURL dryRun n w = (res, w')"
  shows "set (cutoffs_used (added w w'))
    = {AddDate (time_Now (report_stats db w1)) 0 (sint (- n)) 0}"
  using cutoffs_used_run [OF assms] by (simp add: emailRetentionDate_def)

theorem one_cutoff_per_run_witness:
  "newDB ''db'' slow_scenario = ((\<lparr>Conn = 1\<rparr>, None), snd (newDB ''db'' slow_scenario)) \<and>
   time_Now (report_stats \<lparr>Conn = 1\<rparr> (snd (newDB ''db'' slow_scenario))) = 180 \<and>
   clock (snd (DBCleanup thirty_day_months ''db'' False 1 slow_scenario)) = 460 \<and>
   cutoffs_used (added slow_scenario (snd (DBCleanup thirty_day_months ''db'' False 1 slow_scenario)))
     = [150, 150, 150, 150] \<and>
   set (cutoffs_used (added slow_scenario (snd (DBCleanup thirty_day_months ''db'' False 1 slow_scenario))))
     = {thirty_day_months 180 0 (sint (- (1 :: 64 word))) 0}"
proof -
  let ?run = "DBCleanup thirty_day_months ''db'' False 1 slow_scenario"
  have "fst (newDB ''db'' slow_scenario) = (\<lparr>Conn = 1\<rparr>, None)"
    by code_simp
  then have conn: "newDB ''db'' slow_scenario = ((\<lparr>Conn = 1\<rparr>, None), snd (newDB ''db'' slow_scenario))"
    by (simp add: prod_eq_iff)
  have run: "?run = (fst ?run, snd ?run)"
    by simp
  have now: "time_Now (report_stats \<lparr>Conn = 1\<rparr> (snd (newDB ''db'' slow_scenario))) = 180"
    by code_simp
  have "clock (snd ?run) = 460"
    by code_simp
  moreover have "cutoffs_used (added slow_scenario (snd ?run)) = [150, 150, 150, 150]"
    by code_simp
  moreover note one_cutoff_per_run [OF conn run, unfolded now] conn now
  ultimately show ?thesis
    by simp
qed

text \<open>
  C3. After a live run that returns no error, with \<open>C\<close> the cutoff of that run: no
  compose created before \<open>C\<close> is left, no clone is left that references such a compose,
  and no clone is left that references a compose the run deleted.
\<close>

theorem live_run_leaves_nothing_expired:
  assumes "DBCleanup AddDate dbURL False n w = (None, w')"
  shows "expired_composes (run_cutoff AddDate dbURL n w) (composes w') = [] \<and>
    expired_clones (run_cutoff AddDate dbURL n w) (composes w') (clones w') = [] \<and>
    expired_clones (run_cutoff AddDate dbURL n w) (composes w) (clones w') = []"
  using DBCleanup_live_success [OF assms]
  by (simp add: expired_composes_def expired_clones_def filter_empty_conv)

theorem live_run_leaves_nothing_expired_witness:
  "DBCleanup thirty_day_months ''db'' False 1 scenario_A
     = (None, snd (DBCleanup thirty_day_months ''db'' False 1 scenario_A)) \<and>
   run_cutoff thirty_day_months ''db'' 1 scenario_A = 70 \<and>
   map job_id (composes (snd (DBCleanup thirty_day_months ''db'' False 1 scenario_A))) = [2] \<and>
   expired_composes 70 (composes scenario_A) = [\<lparr>job_id = 1, created_at = 40\<rparr>] \<and>
   expired_clones 70 (composes scenario_A) (clones scenario_A) = [\<lparr>clone_id = 7, compose_id = 1\<rparr>] \<and>
   expired_composes 70 (composes (snd (DBCleanup thirty_day_months ''db'' False 1 scenario_A))) = [] \<and>
   expired_clones 70 (composes (snd (DBCleanup thirty_day_months ''db'' False 1 scenario_A)))
     (clones (snd (DBCleanup thirty_day_months ''db'' False 1 scenario_A))) = [] \<and>
   expired_clones 70 (composes scenario_A)
     (clones (snd (DBCleanup thirty_day_months ''db'' False 1 scenario_A))) = []"
proof -
  let ?run = "DBCleanup thirty_day_months ''db'' False 1 scenario_A"
  have "fst ?run = None"
    by code_simp
  then have run: "?run = (None, snd ?run)"
    by (simp add: prod_eq_iff)
  have C: "run_cutoff thirty_day_months ''db'' 1 scenario_A = 70"
    by code_simp
  have "map job_id (composes (snd ?run)) = [2]"
    by code_simp
  moreover
  have "expired_composes 70 (composes scenario_A) = [\<lparr>job_id = 1, created_at = 40\<rparr>]"
    "expired_clones 70 (composes scenario_A) (clones scenario_A) = [\<lparr>clone_id = 7, compose_id = 1\<rparr>]"
    by (simp_all add: scenario_A_def no_world_def expired_composes_def expired_clones_def)
  ultimately show ?thesis
    using live_run_leaves_nothing_expired [OF run, unfolded C] run C by simp
qed

text \<open>
  C9. A live pass that returned no error, followed at once by a second live pass that
  computes the same cutoff: the second pass leaves both tables as the first left them, and
  every statement of it that succeeds affects zero rows, the clone deletions and the
  compose deletions among them.
\<close>

theorem second_pass_deletes_nothing:
  assumes first: "DBCleanup AddDate dbURL False n w = (None, w1)"
    and second: "DBCleanup AddDate dbURL2 False n2 w1 = (res2, w2)"
    and same: "run_cutoff AddDate dbURL2 n2 w1 = run_cutoff AddDate dbURL n w"
  shows "composes w2 = composes w1 \<and> clones w2 = clones w1 \<and>
    list_all (\<lambda>ev. rows_affected ev = 0) (added w1 w2)"
proof -
  let ?C = "run_cutoff AddDate dbURL n w"
  have clean1: "expired_composes ?C (composes w1) = []"
    using DBCleanup_live_success [OF first] by (simp add: expired_composes_def filter_empty_conv)
  obtain db e wa where conn: "newDB dbURL2 w1 = ((db, e), wa)"
    by (metis prod.exhaust)
  show ?thesis
  proof (cases e)
    case (Some err)
    with second conn have "w2 = wa"
      by (simp add: DBCleanup_not_connected)
    with conn Some show ?thesis
      using newDB_err [of dbURL2 w1 db err wa] by (simp add: added_append)
  next
    case None
    let ?wb = "report_stats db wa"
    have C: "emailRetentionDate AddDate n2 ?wb = ?C"
      using run_cutoff_connected [OF conn] same by simp
    have start: "composes ?wb = composes w1" "clones ?wb = clones w1"
      using newDB_ok [of dbURL2 w1 db wa] conn None report_stats_frame [of db wa] by simp_all
    obtain q where jb: "journal ?wb = journal w1 @ [Connected dbURL2 None, Queried sqlVacuumStats q]"
      using newDB_ok [of dbURL2 w1 db wa] conn None report_stats_frame [of db wa] by auto
    obtain res0 w3 where loop: "DBCleanup_loop db False ?C ?wb = (res0, w3)"
      by (metis prod.exhaust)
    from loop_live_trace [OF _ loop] obtain evs where j3: "journal w3 = journal ?wb @ evs"
      by auto
    have clean: "expired_composes ?C (composes ?wb) = []"
      using clean1 start by simp
    from loop_clean [OF clean loop] start j3
    have tabs: "composes w3 = composes w1" "clones w3 = clones w1"
      and zero: "\<forall>ev \<in> set evs. \<forall>s n. ev = Executed s n None \<longrightarrow> n = 0"
      by (simp_all add: added_append)
    have rows: "list_all (\<lambda>ev. rows_affected ev = 0) evs"
      using zero rows_affected_nonzero by (fastforce simp: list_all_iff)
    from second conn None loop C have "w2 = w3 \<or> w2 = report_stats db w3"
      by (cases res0) (simp_all add: DBCleanup_connected)
    then show ?thesis
    proof
      assume "w2 = w3"
      with tabs rows jb j3 show ?thesis
        by (simp add: added_def)
    next
      assume w2: "w2 = report_stats db w3"
      obtain q' where "journal w2 = journal w3 @ [Queried sqlVacuumStats q']"
        using w2 report_stats_frame [of db w3] by auto
      with tabs rows jb j3 w2 show ?thesis
        using report_stats_frame [of db w3] by (simp add: added_def)
    qed
  qed
qed

theorem second_pass_deletes_nothing_witness:
  "DBCleanup thirty_day_months ''db'' False 1 scenario_A
     = (None, snd (DBCleanup thirty_day_months ''db'' False 1 scenario_A)) \<and>
   run_cutoff thirty_day_months ''db'' 1 (snd (DBCleanup thirty_day_months ''db'' False 1 scenario_A))
     = run_cutoff thirty_day_months ''db'' 1 scenario_A \<and>
   map rows_affected (added scenario_A (snd (DBCleanup thirty_day_months ''db'' False 1 scenario_A)))
     = [0, 0, 1, 1, 0, 0, 0, 0, 0] \<and>
   list_all (\<lambda>ev. rows_affected ev = 0)
     (added (snd (DBCleanup thirty_day_months ''db'' False 1 scenario_A))
        (snd (DBCleanup thirty_day_months ''db'' False 1
           (snd (DBCleanup thirty_day_months ''db'' False 1 scenario_A)))))"
proof -
  let ?run = "DBCleanup thirty_day_months ''db'' False 1 scenario_A"
  let ?again = "DBCleanup thirty_day_months ''db'' False 1 (snd ?run)"
  have "fst ?run = None"
    by code_simp
  then have first: "?run = (None, snd ?run)"
    by (simp add: prod_eq_iff)
  have second: "?again = (fst ?again, snd ?again)"
    by simp
  have same: "run_cutoff thirty_day_months ''db'' 1 (snd ?run)
      = run_cutoff thirty_day_months ''db'' 1 scenario_A"
    by code_simp
  have "map rows_affected (added scenario_A (snd ?run)) = [0, 0, 1, 1, 0, 0, 0, 0, 0]"
    by code_simp
  then show ?thesis
    using second_pass_deletes_nothing [OF first second same] first same by simp
qed

text \<open>
  C2. The journal of a live run that connected: the connection, the opening statistics
  query, then complete passes, each one the clone deletion, the compose deletion and
  \<open>VACUUM ANALYZE\<close> in this order. After every pass whose compose deletion affected a
  number of rows other than zero the loop went on. A run that returns no error ends with
  one more complete pass whose compose deletion affected zero rows, and the closing
  statistics query; the only other way out of the loop is a pass cut short by a failed
  statement.
\<close>

theorem live_loop_passes:
  assumes "newDB dbURL w = ((db, None), w1)"
    and "DBCleanup AddDate dbURL False n w = (res, w')"
  shows "\<exists>q its rest.
      added w w' = [Connected dbURL None, Queried sqlVacuumStats q]
        @ concat (map (iteration (run_cutoff AddDate dbURL n w)) its) @ rest \<and>
      0 \<notin> set (map snd its) \<and>
      (case res of
         None \<Rightarrow> \<exists>nc q'. rest = iteration (run_cutoff AddDate dbURL n w) (nc, 0)
                    @ [Queried sqlVacuumStats q']
       | Some err \<Rightarrow> aborted_pass (run_cutoff AddDate dbURL n w) err rest (last (logged w')))"
proof -
  let ?C = "emailRetentionDate AddDate n (report_stats db w1)"
  from DBCleanup_live_trace [OF assms] obtain q its rest where tr:
    "journal w' = journal w @ [Connected dbURL None, Queried sqlVacuumStats q]
       @ concat (map (iteration ?C) its) @ rest"
    and its: "\<forall>it \<in> set its. snd it \<noteq> 0"
    and fin: "case res of
        None \<Rightarrow> \<exists>nc q'. rest = iteration ?C (nc, 0) @ [Queried sqlVacuumStats q']
      | Some err \<Rightarrow> aborted_pass ?C err rest (last (logged w'))"
    by auto
  have "added w w' = [Connected dbURL None, Queried sqlVacuumStats q]
      @ concat (map (iteration ?C) its) @ rest"
    using tr by (simp add: added_def)
  moreover have "0 \<notin> set (map snd its)"
    using its by force
  ultimately show ?thesis
    using fin unfolding run_cutoff_connected [OF assms(1)] by blast
qed

theorem live_loop_passes_witness:
  "newDB ''db'' scenario_A = ((\<lparr>Conn = 1\<rparr>, None), snd (newDB ''db'' scenario_A)) \<and>
   fst (DBCleanup thirty_day_months ''db'' False 1 scenario_A) = None \<and>
   run_cutoff thirty_day_months ''db'' 1 scenario_A = 70 \<and>
   added scenario_A (snd (DBCleanup thirty_day_months ''db'' False 1 scenario_A))
     = [Connected ''db'' None, Queried sqlVacuumStats None]
       @ concat (map (iteration 70) [(1, 1)])
       @ iteration 70 (0, 0) @ [Queried sqlVacuumStats None]"
proof -
  let ?run = "DBCleanup thirty_day_months ''db'' False 1 scenario_A"
  have "fst (newDB ''db'' scenario_A) = (\<lparr>Conn = 1\<rparr>, None)"
    by code_simp
  then have conn: "newDB ''db'' scenario_A = ((\<lparr>Conn = 1\<rparr>, None), snd (newDB ''db'' scenario_A))"
    by (simp add: prod_eq_iff)
  have run: "?run = (fst ?run, snd ?run)"
    by simp
  note shape = live_loop_passes [OF conn run]
  have res: "fst ?run = None"
    by code_simp
  have C: "run_cutoff thirty_day_months ''db'' 1 scenario_A = 70"
    by code_simp
  have "added scenario_A (snd ?run)
     = [Connected ''db'' None, Queried sqlVacuumStats None]
       @ concat (map (iteration 70) [(1, 1)])
       @ iteration 70 (0, 0) @ [Queried sqlVacuumStats None]"
    by code_simp
  with shape conn res C show ?thesis
    by blast
qed

text \<open>
  C4. In a live run, a statement sent through \<open>Conn.Exec\<close> (a clone deletion, a compose
  deletion or \<open>VACUUM ANALYZE\<close>) that fails is the last entry of the run's journal: no
  call follows it. \<open>DBCleanup\<close> returns the error of the failed method, and the last
  record it logs is the error record of that statement, which for the two deletions carries
  the row count the failed call returned. \<open>VacuumAnalyze\<close> returns no row count.
\<close>

theorem failed_statement_stops_run:
  assumes "DBCleanup AddDate dbURL False n w = (res, w')"
    and "added w w' = pre @ Executed s k (Some e0) # post"
  shows "post = [] \<and>
    ((s = sqlDeleteClones (run_cutoff AddDate dbURL n w) \<and>
      res = Some (Errorf ''Error deleting clones: '' e0) \<and>
      last (logged w') = Logf Error ''Error deleting clones: %v, %d rows affected''
        [AInt k, AErr (Errorf ''Error deleting clones: '' e0)]) \<or>
     (s = sqlDeleteComposes (run_cutoff AddDate dbURL n w) \<and>
      res = Some (Errorf ''Error deleting composes: '' e0) \<and>
      last (logged w') = Logf Error ''Error deleting composes: %v, %d rows affected''
        [AInt k, AErr (Errorf ''Error deleting composes: '' e0)]) \<or>
     (s = sqlVacuumAnalyze \<and>
      res = Some (Errorf ''Error running VACUUM ANALYZE: '' e0) \<and>
      last (logged w') = Logf Error ''Error running vacuum analyze: %v''
        [AErr (Errorf ''Error running VACUUM ANALYZE: '' e0)]))"
proof -
  obtain db e w1 where conn: "newDB dbURL w = ((db, e), w1)"
    by (metis prod.exhaust)
  let ?C = "emailRetentionDate AddDate n (report_stats db w1)"
  have C: "run_cutoff AddDate dbURL n w = ?C"
    using conn by (rule run_cutoff_connected)
  have member: "Executed s k (Some e0) \<in> set (added w w')"
    using assms(2) by simp
  have e: "e = None"
  proof (cases e)
    case (Some err)
    with assms(1) conn have "journal w' = journal w @ [Connected dbURL (Some err)]"
      using newDB_err [of dbURL w db err w1] by (simp add: DBCleanup_not_connected)
    with member show ?thesis
      by (simp add: added_append)
  qed
  from DBCleanup_live_trace [OF conn [unfolded e] assms(1)] obtain q its rest where tr:
    "journal w' = journal w @ [Connected dbURL None, Queried sqlVacuumStats q]
       @ concat (map (iteration ?C) its) @ rest"
    and fin: "case res of
        None \<Rightarrow> \<exists>nc q'. rest = iteration ?C (nc, 0) @ [Queried sqlVacuumStats q']
      | Some err \<Rightarrow> aborted_pass ?C err rest (last (logged w'))"
    by auto
  let ?head = "[Connected dbURL None, Queried sqlVacuumStats q] @ concat (map (iteration ?C) its)"
  have added: "added w w' = ?head @ rest"
    using tr by (simp add: added_def)
  have head: "\<not> list_ex failed_exec ?head"
    using no_failed_iterations [of ?C its] by simp
  show ?thesis
  proof (cases res)
    case None
    with fin have "\<not> list_ex failed_exec rest"
      by (auto simp: iteration_def)
    with head added have "\<not> list_ex failed_exec (added w w')"
      by simp
    moreover have "list_ex failed_exec (added w w')"
      unfolding list_ex_iff using member by (rule bexI [rotated]) simp
    ultimately show ?thesis
      by contradiction
  next
    case (Some err)
    with fin have "aborted_pass ?C err rest (last (logged w'))"
      by simp
    from aborted_pass_last [OF this] obtain ok s' k' e0' where
      rest: "rest = ok @ [Executed s' k' (Some e0')]" and ok: "\<not> list_ex failed_exec ok"
      and what: "(s' = sqlDeleteClones ?C \<and> err = Errorf ''Error deleting clones: '' e0' \<and>
          last (logged w') = Logf Error ''Error deleting clones: %v, %d rows affected'' [AInt k', AErr err]) \<or>
        (s' = sqlDeleteComposes ?C \<and> err = Errorf ''Error deleting composes: '' e0' \<and>
          last (logged w') = Logf Error ''Error deleting composes: %v, %d rows affected'' [AInt k', AErr err]) \<or>
        (s' = sqlVacuumAnalyze \<and> err = Errorf ''Error running VACUUM ANALYZE: '' e0' \<and>
          last (logged w') = Logf Error ''Error running vacuum analyze: %v'' [AErr err])"
      by blast
    have eq: "(?head @ ok) @ [Executed s' k' (Some e0')] = pre @ Executed s k (Some e0) # post"
      using added rest assms(2) by simp
    have quiet: "\<not> list_ex failed_exec (?head @ ok)"
      using head ok by simp
    have failed: "failed_exec (Executed s k (Some e0))"
      by simp
    from only_failure_is_last [OF quiet failed eq]
    have "post = []" "s = s'" "k = k'" "e0 = e0'"
      by simp_all
    with what Some C show ?thesis
      by auto
  qed
qed

theorem failed_statement_stops_run_witness:
  "added scenario_C (snd (DBCleanup thirty_day_months ''db'' False 1 scenario_C))
     = [Connected ''db'' None, Queried sqlVacuumStats None, Executed (sqlDeleteClones 70) 1 None]
       @ Executed (sqlDeleteComposes 70) 3 (Some ''constraint violation'') # [] \<and>
   run_cutoff thirty_day_months ''db'' 1 scenario_C = 70 \<and>
   fst (DBCleanup thirty_day_months ''db'' False 1 scenario_C)
     = Some (Errorf ''Error deleting composes: '' ''constraint violation'') \<and>
   last (logged (snd (DBCleanup thirty_day_months ''db'' False 1 scenario_C)))
     = Logf Error ''Error deleting composes: %v, %d rows affected''
         [AInt 3, AErr (Errorf ''Error deleting composes: '' ''constraint violation'')]"
proof -
  let ?run = "DBCleanup thirty_day_months ''db'' False 1 scenario_C"
  have run: "?run = (fst ?run, snd ?run)"
    by simp
  have failed: "added scenario_C (snd ?run)
     = [Connected ''db'' None, Queried sqlVacuumStats None, Executed (sqlDeleteClones 70) 1 None]
       @ Executed (sqlDeleteComposes 70) 3 (Some ''constraint violation'') # []"
    by code_simp
  have C: "run_cutoff thirty_day_months ''db'' 1 scenario_C = 70"
    by code_simp
  from failed_statement_stops_run [OF run failed]
  have "fst ?run = Some (Errorf ''Error deleting composes: '' ''constraint violation'') \<and>
    last (logged (snd ?run)) = Logf Error ''Error deleting composes: %v, %d rows affected''
      [AInt 3, AErr (Errorf ''Error deleting composes: '' ''constraint violation'')]"
    by simp
  with failed C show ?thesis
    by simp
qed

text \<open>
  C8. The loop is a total function: with the run as only writer of the finitely many
  rows, the number of composes older than the cutoff falls with every pass that goes on.
  Its journal is at most one pass that deleted composes, and as many at most as there are
  composes older than the cutoff, then a last part after which nothing is sent. When no
  call fails the loop returns no error, and whenever it returns no error the last part is
  the pass whose compose deletion affected zero rows.
\<close>

theorem delete_loop_stops:
  assumes "DBCleanup_loop db False c w = (res, w')"
  shows "\<exists>its rest.
      added w w' = concat (map (iteration c) its) @ rest \<and>
      0 \<notin> set (map snd its) \<and>
      length its \<le> 1 \<and> length its \<le> length (expired_composes c (composes w)) \<and>
      (fault_free w \<longrightarrow> res = None) \<and>
      (res = None \<longrightarrow> (\<exists>nc. rest = iteration c (nc, 0)))"
proof -
  from loop_live_trace [OF _ assms] obtain its rest where tr:
    "journal w' = journal w @ concat (map (iteration c) its) @ rest"
    and its: "\<forall>it \<in> set its. snd it \<noteq> 0" "expired_composes c (composes w) = [] \<longrightarrow> its = []"
      "length its \<le> 1"
    and fin: "case res of None \<Rightarrow> \<exists>nc. rest = iteration c (nc, 0)
        | Some err \<Rightarrow> aborted_pass c err rest (last (logged w'))"
    by auto
  have "added w w' = concat (map (iteration c) its) @ rest"
    using tr by (simp add: added_def)
  moreover have "0 \<notin> set (map snd its)"
    using its(1) by force
  moreover have "length its \<le> length (expired_composes c (composes w))"
    using its(2,3) by (cases "expired_composes c (composes w)") auto
  moreover have "fault_free w \<longrightarrow> res = None"
    using loop_fault_free [of False w db c] assms by simp
  moreover have "res = None \<longrightarrow> (\<exists>nc. rest = iteration c (nc, 0))"
    using fin by auto
  ultimately show ?thesis
    using its(3) by blast
qed

theorem delete_loop_stops_witness:
  "fault_free scenario_A \<and>
   length (expired_composes 70 (composes scenario_A)) = 1 \<and>
   fst (DBCleanup_loop \<lparr>Conn = 1\<rparr> False 70 scenario_A) = None \<and>
   added scenario_A (snd (DBCleanup_loop \<lparr>Conn = 1\<rparr> False 70 scenario_A))
     = concat (map (iteration 70) [(1, 1)]) @ iteration 70 (0, 0)"
proof -
  let ?loop = "DBCleanup_loop \<lparr>Conn = 1\<rparr> False 70 scenario_A"
  have loop: "?loop = (fst ?loop, snd ?loop)"
    by simp
  note stops = delete_loop_stops [OF loop]
  have free: "fault_free scenario_A"
    by (simp add: fault_free_def scenario_A_def no_world_def)
  have "length (expired_composes 70 (composes scenario_A)) = 1"
    by (simp add: expired_composes_def scenario_A_def no_world_def)
  moreover have "added scenario_A (snd ?loop) = concat (map (iteration 70) [(1, 1)]) @ iteration 70 (0, 0)"
    by code_simp
  moreover from stops free have "fst ?loop = None"
    by blast
  ultimately show ?thesis
    using free by simp
qed

end
